theory Spec2Isabelle
  imports Complex_Main "HOL-Library.Multiset" "HOL-Library.Product_Lexorder"
begin

section \<open>Numeric layer\<close>

text \<open>
  The solvers compute on Python floats and numpy arrays. Floats are modelled as
  \<^typ>\<open>real\<close> (exact arithmetic, no rounding), Python ints as \<^typ>\<open>int\<close>, arrays as lists.
  Every exception the source can raise is a value of the sum type \<open>error + 'a\<close>.
  \<open>NonFinite\<close> is not a Python exception: it marks the places where the source goes on
  with \<^verbatim>\<open>inf\<close> or \<^verbatim>\<open>nan\<close> (a numpy division by zero, \<^verbatim>\<open>float('inf')\<close>, the median of
  an empty array), values that \<^typ>\<open>real\<close> does not have. The model stops there, and no
  \<^verbatim>\<open>except\<close> clause of the model catches it.
\<close>

datatype error = ValueError | IndexError | KeyError | ZeroDivisionError | NonFinite

text \<open>\<^verbatim>\<open>np.cumsum\<close>: running sums.\<close>

fun cumsum_from :: "real \<Rightarrow> real list \<Rightarrow> real list" where
  "cumsum_from acc [] = []"
| "cumsum_from acc (x # xs) = (acc + x) # cumsum_from (acc + x) xs"

definition np_cumsum :: "real list \<Rightarrow> real list" where
  "np_cumsum ws = cumsum_from 0 ws"

text \<open>
  \<^verbatim>\<open>np.interp(x, xp, fp)\<close> for one query point, as numpy computes it for non-decreasing
  \<open>xp\<close>: left of the sample points the first value, right of them the last value, and
  otherwise, with \<open>j\<close> the last index whose sample point is at most \<open>x\<close>, the value \<open>fp[j]\<close>
  when \<open>j\<close> is the last index or \<open>xp[j] = x\<close>, and the linear interpolation between \<open>j\<close> and
  \<open>j + 1\<close> otherwise. An empty \<open>xp\<close> and arrays of different lengths raise ValueError.
\<close>

fun interp_scan :: "real \<Rightarrow> real list \<Rightarrow> real list \<Rightarrow> real" where
  "interp_scan x (x0 # x1 # xp) (f0 # f1 # fp) =
     (if x1 \<le> x then interp_scan x (x1 # xp) (f1 # fp)
      else if x0 = x then f0
      else (f1 - f0) / (x1 - x0) * (x - x0) + f0)"
| "interp_scan x [x0] (f0 # fp) = f0"
| "interp_scan x xp fp = 0"

definition interp_val :: "real \<Rightarrow> real list \<Rightarrow> real list \<Rightarrow> real" where
  "interp_val x xp fp =
     (if x < hd xp then hd fp
      else if x > last xp then last fp
      else interp_scan x xp fp)"

definition np_interp :: "real \<Rightarrow> real list \<Rightarrow> real list \<Rightarrow> error + real" where
  "np_interp x xp fp =
     (if xp = [] \<or> length xp \<noteq> length fp then Inl ValueError
      else Inr (interp_val x xp fp))"

text \<open>\<^verbatim>\<open>np.linspace(a, b, n)\<close> for \<open>n \<ge> 0\<close>.\<close>

definition np_linspace :: "real \<Rightarrow> real \<Rightarrow> nat \<Rightarrow> real list" where
  "np_linspace a b n = map (\<lambda>i. a + real i * ((b - a) / real (n - 1))) [0..<n]"

text \<open>
  The quantile grid \<^verbatim>\<open>np.linspace(1/(n+1), n/(n+1), n)\<close>. The Python division \<^verbatim>\<open>1/(n+1)\<close>
  raises ZeroDivisionError for \<open>n = -1\<close>, and linspace raises ValueError for a negative
  number of points.
\<close>

definition target_quantiles :: "int \<Rightarrow> error + real list" where
  "target_quantiles n =
     (if n + 1 = 0 then Inl ZeroDivisionError
      else if n < 0 then Inl ValueError
      else Inr (np_linspace (1 / real_of_int (n + 1))
                  (real_of_int n / real_of_int (n + 1)) (nat n)))"

text \<open>\<^verbatim>\<open>np.ones(n) / n\<close> for \<open>n \<ge> 0\<close>.\<close>

definition uniform_weights :: "nat \<Rightarrow> real list" where
  "uniform_weights n = replicate n (1 / real n)"

text \<open>
  \<^verbatim>\<open>idx = np.argsort(values); values[idx], weights[idx]\<close>: both arrays reordered by
  ascending value. numpy leaves the order of equal values open; the model keeps their
  input order (a stable sort).
\<close>

definition sort_pairs :: "real list \<Rightarrow> real list \<Rightarrow> (real \<times> real) list" where
  "sort_pairs vs ws = sort_key fst (zip vs ws)"

text \<open>
  The slice \<^verbatim>\<open>xs[:n]\<close>: the first \<open>n\<close> elements, and for a negative \<open>n\<close> all but the last
  \<open>-n\<close>.
\<close>

definition py_take :: "int \<Rightarrow> 'a list \<Rightarrow> 'a list" where
  "py_take n xs = (if 0 \<le> n then take (nat n) xs else take (nat (int (length xs) + n)) xs)"

text \<open>Python's \<^verbatim>\<open>int(x)\<close> on a float truncates toward zero.\<close>

definition py_int :: "real \<Rightarrow> int" where
  "py_int x = (if 0 \<le> x then \<lfloor>x\<rfloor> else \<lceil>x\<rceil>)"

text \<open>Python's \<^verbatim>\<open>round(x)\<close>: the nearest integer, a tie going to the even one.\<close>

definition py_round :: "real \<Rightarrow> int" where
  "py_round x =
     (let f = \<lfloor>x\<rfloor>; d = x - of_int f
      in if d < 1 / 2 then f else if 1 / 2 < d then f + 1
         else if even f then f else f + 1)"

section \<open>ForwardDiscreteDistribution\<close>

record ForwardDiscreteDistribution =
  f_values :: "real list"
  f_L1 :: int
  f_weights :: "real list"

text \<open>
  The constructor: \<open>weights = None\<close> gives uniform weights; supplied weights are divided
  by their sum when it is positive and replaced by uniform weights otherwise; values and
  weights are then sorted by value.
\<close>

definition ForwardDiscreteDistribution_init ::
  "real list \<Rightarrow> int \<Rightarrow> real list option \<Rightarrow> error + ForwardDiscreteDistribution" where
  "ForwardDiscreteDistribution_init vals L1 wts =
     (if int (length vals) \<noteq> L1 then Inl ValueError
      else
        (case (case wts of
                 None \<Rightarrow> Inr (uniform_weights (nat L1))
               | Some w \<Rightarrow>
                   if int (length w) \<noteq> L1 then Inl ValueError
                   else if sum_list w > 0 then Inr (map (\<lambda>x. x / sum_list w) w)
                   else Inr (uniform_weights (nat L1))) of
           Inl e \<Rightarrow> Inl e
         | Inr w' \<Rightarrow>
             Inr \<lparr> f_values = map fst (sort_pairs vals w'), f_L1 = L1,
                   f_weights = map snd (sort_pairs vals w') \<rparr>))"

definition f_get_quantile :: "ForwardDiscreteDistribution \<Rightarrow> real \<Rightarrow> error + real" where
  "f_get_quantile d alpha =
     (if alpha \<le> 0 then (if f_values d = [] then Inl IndexError else Inr (hd (f_values d)))
      else if alpha \<ge> 1 then
        (if f_values d = [] then Inl IndexError else Inr (last (f_values d)))
      else np_interp alpha (np_cumsum (f_weights d)) (f_values d))"

definition f_get_mean :: "ForwardDiscreteDistribution \<Rightarrow> real" where
  "f_get_mean d = sum_list (map (\<lambda>(v, w). v * w) (zip (f_values d) (f_weights d)))"

definition f_get_variance :: "ForwardDiscreteDistribution \<Rightarrow> real" where
  "f_get_variance d =
     (let mu = f_get_mean d
      in sum_list (map (\<lambda>(v, w). w * (v - mu) ^ 2) (zip (f_values d) (f_weights d))))"

definition f_get_std :: "ForwardDiscreteDistribution \<Rightarrow> real" where
  "f_get_std d = sqrt (f_get_variance d)"

definition f_get_median :: "ForwardDiscreteDistribution \<Rightarrow> error + real" where
  "f_get_median d = f_get_quantile d (1 / 2)"

section \<open>AlphaDiscreteDistribution\<close>

record AlphaDiscreteDistribution =
  a_values :: "real list"
  a_L1 :: int
  a_weights :: "real list"

text \<open>
  \<^verbatim>\<open>__post_init__\<close>: no length check and no sorting; weights are divided by their sum
  only when there is at least one weight and the sum is positive, and are kept as they
  are otherwise.
\<close>

definition AlphaDiscreteDistribution_init ::
  "real list \<Rightarrow> int \<Rightarrow> real list option \<Rightarrow> AlphaDiscreteDistribution" where
  "AlphaDiscreteDistribution_init vals L1 wts =
     (let w = (case wts of None \<Rightarrow> uniform_weights (length vals) | Some w \<Rightarrow> w);
          w' = (if length w > 0 \<and> sum_list w > 0 then map (\<lambda>x. x / sum_list w) w else w)
      in \<lparr> a_values = vals, a_L1 = L1, a_weights = w' \<rparr>)"

text \<open>
  \<^verbatim>\<open>get_quantile\<close> sorts on every call. \<^verbatim>\<open>self.weights[sorted_idx]\<close> raises IndexError
  when there are fewer weights than values and ignores surplus weights.
\<close>

definition a_get_quantile :: "AlphaDiscreteDistribution \<Rightarrow> real \<Rightarrow> error + real" where
  "a_get_quantile d alpha =
     (if a_values d = [] then Inl NonFinite
      else if alpha \<le> 0 then Inr (Min (set (a_values d)))
      else if alpha \<ge> 1 then Inr (Max (set (a_values d)))
      else if length (a_weights d) < length (a_values d) then Inl IndexError
      else
        (let ps = sort_pairs (a_values d) (a_weights d)
         in np_interp alpha (np_cumsum (map snd ps)) (map fst ps)))"

text \<open>
  The elementwise product of two numpy arrays: equal lengths, or one of them of length
  one (broadcast); anything else raises ValueError.
\<close>

definition np_mul :: "real list \<Rightarrow> real list \<Rightarrow> error + real list" where
  "np_mul xs ys =
     (if length xs = length ys then Inr (map (\<lambda>(x, y). x * y) (zip xs ys))
      else if length xs = 1 then Inr (map (\<lambda>y. hd xs * y) ys)
      else if length ys = 1 then Inr (map (\<lambda>x. x * hd ys) xs)
      else Inl ValueError)"

definition a_get_mean :: "AlphaDiscreteDistribution \<Rightarrow> error + real" where
  "a_get_mean d =
     (case np_mul (a_values d) (a_weights d) of
        Inl e \<Rightarrow> Inl e
      | Inr p \<Rightarrow> Inr (sum_list p))"

definition a_get_variance :: "AlphaDiscreteDistribution \<Rightarrow> error + real" where
  "a_get_variance d =
     (case a_get_mean d of
        Inl e \<Rightarrow> Inl e
      | Inr mu \<Rightarrow>
          (case np_mul (a_weights d) (map (\<lambda>v. (v - mu) ^ 2) (a_values d)) of
             Inl e \<Rightarrow> Inl e
           | Inr p \<Rightarrow> Inr (sum_list p)))"

definition a_get_std :: "AlphaDiscreteDistribution \<Rightarrow> error + real" where
  "a_get_std d = (case a_get_variance d of Inl e \<Rightarrow> Inl e | Inr v \<Rightarrow> Inr (sqrt v))"

text \<open>\<^verbatim>\<open>np.median(self.values)\<close>: the unweighted median; \<^verbatim>\<open>nan\<close> for an empty array.\<close>

definition np_median :: "real list \<Rightarrow> error + real" where
  "np_median vs =
     (let s = sort vs; n = length s
      in if n = 0 then Inl NonFinite
         else if odd n then Inr (s ! (n div 2))
         else Inr ((s ! (n div 2 - 1) + s ! (n div 2)) / 2))"

definition a_get_median :: "AlphaDiscreteDistribution \<Rightarrow> error + real" where
  "a_get_median d = np_median (a_values d)"

section \<open>LinkTimeDistribution\<close>

text \<open>
  Both solver files define the same class (the reverse file adds \<^verbatim>\<open>get_probability\<close>).
  The dictionary \<^verbatim>\<open>time_prob\<close> is an association list in insertion order with distinct
  keys.
\<close>

record LinkTimeDistribution =
  time_prob :: "(int \<times> real) list"
  times :: "int list"
  cdf :: "real list"
  time_slot :: "int option"

definition LinkTimeDistribution_init ::
  "(int \<times> real) list \<Rightarrow> int option \<Rightarrow> error + LinkTimeDistribution" where
  "LinkTimeDistribution_init time_prob_dict slot =
     (if time_prob_dict = [] then Inl ValueError
      else
        (let total_prob = sum_list (map snd time_prob_dict)
         in if total_prob = 0 then Inl ZeroDivisionError
            else
              (let tp = map (\<lambda>(t, p). (t, p / total_prob)) time_prob_dict;
                   sorted_times = sort (map fst tp)
               in Inr \<lparr> time_prob = tp, times = sorted_times,
                         cdf = np_cumsum (map (\<lambda>t. the (map_of tp t)) sorted_times),
                         time_slot = slot \<rparr>)))"

text \<open>
  \<^verbatim>\<open>_inverse_cdf\<close>: the loop \<^verbatim>\<open>for i, cdf_val in enumerate(self.cdf)\<close> as a recursion on
  the rest of \<open>cdf\<close>, with the index \<open>i\<close> beside it.
\<close>

fun inverse_cdf_loop :: "LinkTimeDistribution \<Rightarrow> real \<Rightarrow> nat \<Rightarrow> real list \<Rightarrow> error + int" where
  "inverse_cdf_loop d quantile i [] =
     (if times d = [] then Inl IndexError else Inr (last (times d)))"
| "inverse_cdf_loop d quantile i (cdf_val # rest) =
     (if cdf_val \<ge> quantile then
        (if i = 0 then (if times d = [] then Inl IndexError else Inr (times d ! 0))
         else if i \<ge> length (times d) then Inl IndexError
         else
           (let lower_cdf = cdf d ! (i - 1);
                upper_cdf = cdf_val;
                lower_time = times d ! (i - 1);
                upper_time = times d ! i;
                weight = (if upper_cdf > lower_cdf
                          then (quantile - lower_cdf) / (upper_cdf - lower_cdf) else 1 / 2)
            in Inr (py_round (real_of_int lower_time
                               + weight * real_of_int (upper_time - lower_time)))))
      else inverse_cdf_loop d quantile (i + 1) rest)"

definition inverse_cdf :: "LinkTimeDistribution \<Rightarrow> real \<Rightarrow> error + int" where
  "inverse_cdf d quantile =
     (if quantile \<le> 0 then (if times d = [] then Inl IndexError else Inr (times d ! 0))
      else if quantile \<ge> 1 then (if times d = [] then Inl IndexError else Inr (last (times d)))
      else inverse_cdf_loop d quantile 0 (cdf d))"

text \<open>Collecting results of a loop whose body can raise: the first error ends it.\<close>

fun collect :: "('a \<Rightarrow> error + 'b) \<Rightarrow> 'a list \<Rightarrow> error + 'b list" where
  "collect f [] = Inr []"
| "collect f (x # xs) =
     (case f x of
        Inl e \<Rightarrow> Inl e
      | Inr y \<Rightarrow> (case collect f xs of Inl e \<Rightarrow> Inl e | Inr ys \<Rightarrow> Inr (y # ys)))"

text \<open>
  \<^verbatim>\<open>sample_L2_times\<close>: the quantiles \<open>i / (L2 + 1)\<close> for \<open>i = 1, \<dots>, L2\<close> (none when
  \<open>L2 \<le> 0\<close>), sorted. The argument \<^verbatim>\<open>reference_time\<close> is not used by the source.
\<close>

definition sample_L2_times :: "LinkTimeDistribution \<Rightarrow> int \<Rightarrow> error + int list" where
  "sample_L2_times d L2 =
     (case collect (\<lambda>i. inverse_cdf d (real i / real_of_int (L2 + 1))) [1..<nat (L2 + 1)] of
        Inl e \<Rightarrow> Inl e
      | Inr samples \<Rightarrow> Inr (sort samples))"

text \<open>
  \<^verbatim>\<open>get_probability\<close>: the stored probability of the rounded travel time, else zero
  outside \<open>[times[0], times[-1]]\<close>, else the linear interpolation between the first pair
  of neighbouring support points that encloses it.
\<close>

fun get_probability_loop :: "LinkTimeDistribution \<Rightarrow> int \<Rightarrow> nat list \<Rightarrow> error + real" where
  "get_probability_loop d tt [] = Inr 0"
| "get_probability_loop d tt (i # rest) =
     (if times d ! i \<le> tt \<and> tt \<le> times d ! (i + 1) then
        (let t_lower = times d ! i; t_upper = times d ! (i + 1)
         in case map_of (time_prob d) t_lower of
              None \<Rightarrow> Inl KeyError
            | Some p_lower \<Rightarrow>
                (case map_of (time_prob d) t_upper of
                   None \<Rightarrow> Inl KeyError
                 | Some p_upper \<Rightarrow>
                     if t_upper = t_lower then Inr p_lower
                     else
                       (let weight = real_of_int (tt - t_lower) / real_of_int (t_upper - t_lower)
                        in Inr (p_lower * (1 - weight) + p_upper * weight))))
      else get_probability_loop d tt rest)"

definition get_probability :: "LinkTimeDistribution \<Rightarrow> real \<Rightarrow> error + real" where
  "get_probability d travel_time =
     (let travel_time_int = py_round travel_time
      in case map_of (time_prob d) travel_time_int of
           Some p \<Rightarrow> Inr p
         | None \<Rightarrow>
             if times d = [] then Inr 0
             else if travel_time_int < hd (times d) \<or> travel_time_int > last (times d)
             then Inr 0
             else get_probability_loop d travel_time_int [0..<length (times d) - 1])"

section \<open>The link-distribution table of a solver\<close>

text \<open>
  \<^verbatim>\<open>self.link_distributions\<close>: a dictionary keyed by \<open>(u, v, slot)\<close>, as an association
  list in insertion order with distinct keys.
\<close>

type_synonym link_table = "((int \<times> int \<times> int) \<times> LinkTimeDistribution) list"

text \<open>Python's \<^verbatim>\<open>min(xs, key=f)\<close> on a non-empty list: the first element of least key.\<close>

fun min_by :: "('a \<Rightarrow> int) \<Rightarrow> 'a \<Rightarrow> 'a list \<Rightarrow> 'a" where
  "min_by f best [] = best"
| "min_by f best (x # xs) = min_by f (if f x < f best then x else best) xs"

definition get_link_distribution_at_slot ::
  "link_table \<Rightarrow> int \<Rightarrow> int \<Rightarrow> int \<Rightarrow> int \<Rightarrow> LinkTimeDistribution option" where
  "get_link_distribution_at_slot link_distributions time_intervals_per_day u v slot =
     (case map_of link_distributions (u, v, slot) of
        Some D \<Rightarrow> Some D
      | None \<Rightarrow>
          (let tolerance = 5;
               candidates = List.map_filter
                 (\<lambda>((link_u, link_v, link_t), D).
                    if link_u = u \<and> link_v = v then
                      (let diff = \<bar>link_t - slot\<bar>;
                           cyclic_diff = min diff (time_intervals_per_day - diff)
                       in if cyclic_diff \<le> tolerance then Some (link_t, cyclic_diff) else None)
                    else None)
                 link_distributions
           in case candidates of
                [] \<Rightarrow> None
              | c # cs \<Rightarrow> map_of link_distributions (u, v, fst (min_by snd c cs))))"

text \<open>
  \<^verbatim>\<open>_get_available_slots\<close>: the sorted slots the table has for the edge. The source keeps
  the answer in a class-level cache keyed by \<open>(u, v)\<close>; the model computes it from the
  table each time, which is what a fresh cache holds.
\<close>

definition get_available_slots :: "link_table \<Rightarrow> int \<Rightarrow> int \<Rightarrow> int list" where
  "get_available_slots link_distributions u v =
     sort (remdups (List.map_filter
       (\<lambda>((link_u, link_v, slot), D). if link_u = u \<and> link_v = v then Some slot else None)
       link_distributions))"

text \<open>\<^verbatim>\<open>_find_nearest_slot\<close> on a non-empty list; \<open>None\<close> is the initial \<^verbatim>\<open>float('inf')\<close>.\<close>

fun find_nearest_slot_loop :: "int \<Rightarrow> int \<Rightarrow> int option \<Rightarrow> int \<Rightarrow> int list \<Rightarrow> int" where
  "find_nearest_slot_loop target_slot tipd min_dist best_slot [] = best_slot"
| "find_nearest_slot_loop target_slot tipd min_dist best_slot (slot # rest) =
     (let dist = \<bar>slot - target_slot\<bar>;
          cyclic_dist = min dist (tipd - dist)
      in if (case min_dist of None \<Rightarrow> True | Some m \<Rightarrow> cyclic_dist < m)
         then find_nearest_slot_loop target_slot tipd (Some cyclic_dist) slot rest
         else find_nearest_slot_loop target_slot tipd min_dist best_slot rest)"

definition find_nearest_slot :: "int \<Rightarrow> int list \<Rightarrow> int \<Rightarrow> int" where
  "find_nearest_slot target_slot available_slots time_intervals_per_day =
     find_nearest_slot_loop target_slot time_intervals_per_day None (hd available_slots)
       available_slots"

text \<open>
  The distribution a convolution uses for a departure time: the slot
  \<^verbatim>\<open>int(t_dep / 10) % time_intervals_per_day\<close> (ZeroDivisionError for zero slots per day),
  the table's answer for it, and the nearest available slot's when there is none.
\<close>

definition slot_distribution ::
  "link_table \<Rightarrow> int \<Rightarrow> int \<Rightarrow> int \<Rightarrow> int list \<Rightarrow> real
     \<Rightarrow> error + LinkTimeDistribution option" where
  "slot_distribution link_distributions time_intervals_per_day u v available_slots t_dep =
     (if time_intervals_per_day = 0 then Inl ZeroDivisionError
      else
        (let slot_dep = py_int (t_dep / 10) mod time_intervals_per_day
         in case get_link_distribution_at_slot link_distributions time_intervals_per_day
                   u v slot_dep of
              Some D \<Rightarrow> Inr (Some D)
            | None \<Rightarrow>
                Inr (get_link_distribution_at_slot link_distributions time_intervals_per_day
                       u v (find_nearest_slot slot_dep available_slots
                              time_intervals_per_day))))"

section \<open>Forward convolution\<close>

text \<open>\<^verbatim>\<open>np.interp\<close> for an array of query points.\<close>

definition np_interp_array :: "real list \<Rightarrow> real list \<Rightarrow> real list \<Rightarrow> error + real list" where
  "np_interp_array xs xp fp =
     (if xp = [] \<or> length xp \<noteq> length fp then Inl ValueError
      else Inr (map (\<lambda>x. interp_val x xp fp) xs))"

text \<open>
  The block that \<^verbatim>\<open>forward_convolve\<close> writes three times: the cumulative weights divided
  by their last entry, the grid of \<open>n\<close> quantiles, the interpolated times, and uniform
  weights. \<^verbatim>\<open>cumsum[-1]\<close> raises IndexError on an empty array; a zero total makes numpy
  divide by zero, and the \<^verbatim>\<open>nan\<close> reaches the result unless the grid is empty.
\<close>

definition quantile_resample ::
  "real list \<Rightarrow> real list \<Rightarrow> int \<Rightarrow> error + real list \<times> real list" where
  "quantile_resample ts ws n =
     (let cumsum = np_cumsum ws
      in if cumsum = [] then Inl IndexError
         else
           (case target_quantiles n of
              Inl e \<Rightarrow> Inl e
            | Inr tq \<Rightarrow>
                if last cumsum = 0 \<and> tq \<noteq> [] then Inl NonFinite
                else
                  (case np_interp_array tq (map (\<lambda>c. c / last cumsum) cumsum) ts of
                     Inl e \<Rightarrow> Inl e
                   | Inr selected \<Rightarrow> Inr (selected, uniform_weights (nat n)))))"

text \<open>
  The pooled arrival candidates: for every departure point the \<open>L2\<close> sampled travel
  times of its slot's distribution, each arrival weighted \<open>dep_weight / L2\<close>; a point
  without a distribution is skipped.
\<close>

definition arrival_candidates ::
  "ForwardDiscreteDistribution \<Rightarrow> link_table \<Rightarrow> int \<Rightarrow> int \<Rightarrow> int \<Rightarrow> int list \<Rightarrow> int
     \<Rightarrow> error + (real \<times> real) list" where
  "arrival_candidates self link_distributions time_intervals_per_day current successor
     available_slots L2 =
     (case collect
        (\<lambda>(t_dep, dep_weight).
           case slot_distribution link_distributions time_intervals_per_day current successor
                  available_slots t_dep of
             Inl e \<Rightarrow> Inl e
           | Inr None \<Rightarrow> Inr []
           | Inr (Some D_slot) \<Rightarrow>
               (case sample_L2_times D_slot L2 of
                  Inl e \<Rightarrow> Inl e
                | Inr sampled_travel_times \<Rightarrow>
                    Inr (map (\<lambda>travel_time.
                                (t_dep + real_of_int travel_time, dep_weight / real_of_int L2))
                           sampled_travel_times)))
        (zip (f_values self) (f_weights self)) of
        Inl e \<Rightarrow> Inl e
      | Inr groups \<Rightarrow> Inr (concat groups))"

definition forward_convolve ::
  "ForwardDiscreteDistribution \<Rightarrow> link_table \<Rightarrow> int \<Rightarrow> int \<Rightarrow> int \<Rightarrow> int \<Rightarrow> int
     \<Rightarrow> error + ForwardDiscreteDistribution" where
  "forward_convolve self link_distributions time_intervals_per_day current successor L2 K =
     (let available_slots = get_available_slots link_distributions current successor
      in if available_slots = [] then Inl ValueError
         else
           (case arrival_candidates self link_distributions time_intervals_per_day current
                   successor available_slots L2 of
              Inl e \<Rightarrow> Inl e
            | Inr all_arrivals \<Rightarrow>
                if all_arrivals = [] then Inl ValueError
                else
                  (let sorted_arrivals = sort_key fst all_arrivals;
                       all_arrival_times = map fst sorted_arrivals;
                       all_arrival_weights = map snd sorted_arrivals
                   in case (if int (length all_arrival_times) > K
                            then quantile_resample all_arrival_times all_arrival_weights K
                            else Inr (all_arrival_times, all_arrival_weights)) of
                        Inl e \<Rightarrow> Inl e
                      | Inr (selected_times, selected_weights) \<Rightarrow>
                          (case (if int (length selected_times) < f_L1 self
                                 then quantile_resample selected_times selected_weights
                                        (f_L1 self)
                                 else if int (length selected_times) > f_L1 self
                                 then quantile_resample selected_times selected_weights
                                        (f_L1 self)
                                 else Inr (selected_times, selected_weights)) of
                             Inl e \<Rightarrow> Inl e
                           | Inr (final_times, final_weights) \<Rightarrow>
                               (let final = sort_pairs final_times final_weights
                                in ForwardDiscreteDistribution_init (map fst final) (f_L1 self)
                                     (Some (map snd final)))))))"

section \<open>Reverse convolution\<close>

text \<open>The travel-time range over the available slots; \<open>None\<close> is \<^verbatim>\<open>float('inf')\<close>.\<close>

fun travel_range ::
  "link_table \<Rightarrow> int \<Rightarrow> int \<Rightarrow> int \<Rightarrow> int option \<times> int \<Rightarrow> int list \<Rightarrow> int option \<times> int" where
  "travel_range lds tipd u v (min_travel, max_travel) [] = (min_travel, max_travel)"
| "travel_range lds tipd u v (min_travel, max_travel) (slot # rest) =
     (case get_link_distribution_at_slot lds tipd u v slot of
        None \<Rightarrow> travel_range lds tipd u v (min_travel, max_travel) rest
      | Some D_slot \<Rightarrow>
          if times D_slot = [] then travel_range lds tipd u v (min_travel, max_travel) rest
          else
            travel_range lds tipd u v
              (Some (case min_travel of
                       None \<Rightarrow> Min (set (times D_slot))
                     | Some m \<Rightarrow> min m (Min (set (times D_slot)))),
               max max_travel (Max (set (times D_slot))))
              rest)"

text \<open>\<^verbatim>\<open>d[k] = d.get(k, 0.0) + w\<close> on a dictionary kept in insertion order.\<close>

fun dict_add :: "(int \<times> real) list \<Rightarrow> int \<Rightarrow> real \<Rightarrow> (int \<times> real) list" where
  "dict_add [] k w = [(k, 0 + w)]"
| "dict_add ((k', p) # rest) k w =
     (if k' = k then (k', p + w) # rest else (k', p) # dict_add rest k w)"

definition arrival_probs_of :: "AlphaDiscreteDistribution \<Rightarrow> (int \<times> real) list" where
  "arrival_probs_of self =
     (let raw = foldl (\<lambda>acc (t_arr, weight). dict_add acc (py_round t_arr) weight) []
                  (zip (a_values self) (a_weights self));
          total_arrival_prob = sum_list (map snd raw)
      in if total_arrival_prob > 0
         then map (\<lambda>(t, p). (t, p / total_arrival_prob)) raw else raw)"

text \<open>
  \<open>P(t_dep)\<close>: the sum over the arrival table of
  \<open>P(arrival = t_arr) * P(travel = t_arr - t_dep)\<close>, the terms with \<open>P(travel) \<le> 0\<close> left
  out.
\<close>

definition departure_prob ::
  "LinkTimeDistribution \<Rightarrow> (int \<times> real) list \<Rightarrow> int \<Rightarrow> error + real" where
  "departure_prob D_slot arrival_probs t_dep =
     (case collect
        (\<lambda>(t_arr, prob_arr).
           case get_probability D_slot (real_of_int (t_arr - t_dep)) of
             Inl e \<Rightarrow> Inl e
           | Inr prob_travel \<Rightarrow> Inr (if prob_travel > 0 then prob_arr * prob_travel else 0))
        arrival_probs of
        Inl e \<Rightarrow> Inl e
      | Inr terms \<Rightarrow> Inr (sum_list terms))"

text \<open>
  The table \<^verbatim>\<open>departure_probs\<close>: the candidate departures, ascending, whose probability
  exceeds \<open>1e-10\<close>.
\<close>

definition departure_probs_of ::
  "link_table \<Rightarrow> int \<Rightarrow> int \<Rightarrow> int \<Rightarrow> int list \<Rightarrow> (int \<times> real) list \<Rightarrow> int list
     \<Rightarrow> error + (int \<times> real) list" where
  "departure_probs_of lds tipd predecessor current available_slots arrival_probs
     candidate_departures =
     (case collect
        (\<lambda>t_dep.
           case slot_distribution lds tipd predecessor current available_slots
                  (real_of_int t_dep) of
             Inl e \<Rightarrow> Inl e
           | Inr None \<Rightarrow> Inr []
           | Inr (Some D_slot) \<Rightarrow>
               (case departure_prob D_slot arrival_probs t_dep of
                  Inl e \<Rightarrow> Inl e
                | Inr prob_t_dep \<Rightarrow>
                    Inr (if prob_t_dep > 1 / 10 ^ 10 then [(t_dep, prob_t_dep)] else [])))
        candidate_departures of
        Inl e \<Rightarrow> Inl e
      | Inr groups \<Rightarrow> Inr (concat groups))"

text \<open>
  The branch for a total probability of at most \<open>1e-10\<close>: equal weights, cut to the
  first \<open>L1\<close> points.
\<close>

definition near_zero_fallback ::
  "AlphaDiscreteDistribution \<Rightarrow> (int \<times> real) list \<Rightarrow> AlphaDiscreteDistribution" where
  "near_zero_fallback self departure_probs =
     (let ts = map (real_of_int \<circ> fst) departure_probs;
          ws = uniform_weights (length ts)
      in AlphaDiscreteDistribution_init
           (if int (length ts) > a_L1 self then py_take (a_L1 self) ts else ts)
           (min (int (length ts)) (a_L1 self))
           (Some (if int (length ws) > a_L1 self then py_take (a_L1 self) ws else ws)))"

text \<open>
  The main branch: normalise, resample to \<open>L1\<close> quantile points unless there are exactly
  \<open>L1\<close> departure times, sort, normalise the weights once more. A division of a
  non-empty array by a zero sum is where numpy would go on with \<^verbatim>\<open>nan\<close>.
\<close>

definition resample_departures ::
  "AlphaDiscreteDistribution \<Rightarrow> (int \<times> real) list \<Rightarrow> real
     \<Rightarrow> error + AlphaDiscreteDistribution" where
  "resample_departures self departure_probs total_prob =
     (let ts = map (real_of_int \<circ> fst) departure_probs;
          probs0 = map (\<lambda>(t, p). p / total_prob) departure_probs;
          prob_sum = sum_list probs0
      in if \<bar>prob_sum - 1\<bar> > 1 / 10 ^ 6 \<and> prob_sum = 0 then Inl NonFinite
         else
           (let probs = (if \<bar>prob_sum - 1\<bar> > 1 / 10 ^ 6
                         then map (\<lambda>p. p / prob_sum) probs0 else probs0)
            in case (if int (length ts) > a_L1 self \<or> int (length ts) < a_L1 self then
                       (case target_quantiles (a_L1 self) of
                          Inl e \<Rightarrow> Inl e
                        | Inr tq \<Rightarrow>
                            (case np_interp_array tq (np_cumsum probs) ts of
                               Inl e \<Rightarrow> Inl e
                             | Inr sampled \<Rightarrow> Inr (sampled, uniform_weights (nat (a_L1 self)))))
                     else Inr (ts, probs)) of
                 Inl e \<Rightarrow> Inl e
               | Inr (sampled_times, sampled_weights) \<Rightarrow>
                   (let sp = sort_pairs sampled_times sampled_weights;
                        sw = map snd sp
                    in if sw \<noteq> [] \<and> sum_list sw = 0 then Inl NonFinite
                       else Inr (AlphaDiscreteDistribution_init (map fst sp) (a_L1 self)
                                   (Some (map (\<lambda>w. w / sum_list sw) sw))))))"

text \<open>
  Steps 1 to 4 of \<^verbatim>\<open>reverse_convolve\<close>: the earliest feasible departure
  \<^verbatim>\<open>min_departure\<close> and the table \<^verbatim>\<open>departure_probs\<close>. The calls that raise: no slot
  for the edge, no travel time in any slot, \<^verbatim>\<open>np.min\<close> of no values, and
  \<^verbatim>\<open>self.weights[i]\<close> past the last weight.
\<close>

definition departure_table ::
  "AlphaDiscreteDistribution \<Rightarrow> link_table \<Rightarrow> int \<Rightarrow> int \<Rightarrow> int
     \<Rightarrow> error + real \<times> (int \<times> real) list" where
  "departure_table self lds time_intervals_per_day predecessor current =
     (let available_slots = get_available_slots lds predecessor current
      in if available_slots = [] then Inl ValueError
         else
           (case travel_range lds time_intervals_per_day predecessor current (None, 0)
                   available_slots of
              (None, max_travel) \<Rightarrow> Inl ValueError
            | (Some min_travel, max_travel) \<Rightarrow>
                if a_values self = [] then Inl ValueError
                else if length (a_weights self) < length (a_values self) then Inl IndexError
                else
                  (let min_arrival = Min (set (a_values self));
                       max_arrival = Max (set (a_values self));
                       min_departure = min_arrival - real_of_int max_travel;
                       max_departure = max_arrival - real_of_int min_travel;
                       candidate_departures = [\<lfloor>min_departure\<rfloor> .. \<lceil>max_departure\<rceil>];
                       arrival_probs = arrival_probs_of self
                   in case departure_probs_of lds time_intervals_per_day predecessor current
                             available_slots arrival_probs candidate_departures of
                        Inl e \<Rightarrow> Inl e
                      | Inr departure_probs \<Rightarrow> Inr (min_departure, departure_probs))))"

text \<open>
  Step 5: no departure left gives the one-point distribution at \<^verbatim>\<open>min_departure\<close> with
  \<open>L1 = 1\<close>; a total of at most \<open>1e-10\<close> gives the equal-weight fallback; anything else is
  resampled.
\<close>

definition reverse_convolve ::
  "AlphaDiscreteDistribution \<Rightarrow> link_table \<Rightarrow> int \<Rightarrow> int \<Rightarrow> int
     \<Rightarrow> error + AlphaDiscreteDistribution" where
  "reverse_convolve self lds time_intervals_per_day predecessor current =
     (case departure_table self lds time_intervals_per_day predecessor current of
        Inl e \<Rightarrow> Inl e
      | Inr (min_departure, departure_probs) \<Rightarrow>
          if departure_probs = [] then
            Inr (AlphaDiscreteDistribution_init [min_departure] 1 (Some [1]))
          else
            (let total_prob = sum_list (map snd departure_probs)
             in if total_prob \<le> 1 / 10 ^ 10
                then Inr (near_zero_fallback self departure_probs)
                else resample_departures self departure_probs total_prob))"

section \<open>Labels and dominance\<close>

record ForwardLabel =
  fl_node_id :: int
  fl_distribution :: ForwardDiscreteDistribution
  fl_path :: "int list"
  fl_cost :: real
  fl_alpha :: real
  fl_mean_cache :: real
  fl_variance_cache :: real
  fl_std_cache :: real

text \<open>The dataclass constructor with \<^verbatim>\<open>__post_init__\<close>: the statistics are cached.\<close>

definition ForwardLabel_init ::
  "int \<Rightarrow> ForwardDiscreteDistribution \<Rightarrow> int list \<Rightarrow> real \<Rightarrow> ForwardLabel" where
  "ForwardLabel_init node_id distribution path cost =
     \<lparr> fl_node_id = node_id, fl_distribution = distribution, fl_path = path, fl_cost = cost,
       fl_alpha = 95 / 100,
       fl_mean_cache = f_get_mean distribution,
       fl_variance_cache = f_get_variance distribution,
       fl_std_cache = f_get_std distribution \<rparr>"

text \<open>\<^verbatim>\<open>__lt__\<close>: the priority queue is a min-heap on the cost.\<close>

definition fl_lt :: "ForwardLabel \<Rightarrow> ForwardLabel \<Rightarrow> bool" where
  "fl_lt self other = (fl_cost self < fl_cost other)"

text \<open>The default tolerance \<^verbatim>\<open>epsilon = 1e-6\<close>.\<close>

definition default_epsilon :: real where
  "default_epsilon = 1 / 10 ^ 6"

definition f_dominates_weak ::
  "ForwardLabel \<Rightarrow> ForwardLabel \<Rightarrow> real \<Rightarrow> real \<Rightarrow> error + bool" where
  "f_dominates_weak self other alpha epsilon =
     (if fl_node_id self \<noteq> fl_node_id other then Inr False
      else
        (case f_get_quantile (fl_distribution self) alpha of
           Inl e \<Rightarrow> Inl e
         | Inr Q_self \<Rightarrow>
             (case f_get_quantile (fl_distribution other) alpha of
                Inl e \<Rightarrow> Inl e
              | Inr Q_other \<Rightarrow>
                  if Q_self < Q_other - epsilon then Inr True
                  else if \<bar>Q_self - Q_other\<bar> \<le> epsilon then
                    (let mu_self = fl_mean_cache self; mu_other = fl_mean_cache other
                     in if mu_self < mu_other - epsilon then Inr True
                        else if \<bar>mu_self - mu_other\<bar> \<le> epsilon then
                          (let sigma2_self = fl_variance_cache self;
                               sigma2_other = fl_variance_cache other
                           in if sigma2_self < sigma2_other - epsilon then Inr True
                              else Inr False)
                        else Inr False)
                  else Inr False)))"

record ReverseLabel =
  rl_node_id :: int
  rl_distribution :: AlphaDiscreteDistribution
  rl_path :: "int list"
  rl_cost :: real
  rl_quantile_cache :: "(real \<times> real) list"
  rl_mean_cache :: real
  rl_variance_cache :: real
  rl_std_cache :: real

text \<open>
  \<^verbatim>\<open>__post_init__\<close> fills the quantile cache for nine fixed levels and caches mean,
  variance and standard deviation; any of these calls can raise.
\<close>

definition ReverseLabel_init ::
  "int \<Rightarrow> AlphaDiscreteDistribution \<Rightarrow> int list \<Rightarrow> real \<Rightarrow> error + ReverseLabel" where
  "ReverseLabel_init node_id distribution path cost =
     (case collect
        (\<lambda>q. case a_get_quantile distribution q of Inl e \<Rightarrow> Inl e | Inr v \<Rightarrow> Inr (q, v))
        [1 / 100, 5 / 100, 1 / 10, 25 / 100, 1 / 2, 75 / 100, 9 / 10, 95 / 100, 99 / 100] of
        Inl e \<Rightarrow> Inl e
      | Inr cache \<Rightarrow>
          (case a_get_mean distribution of
             Inl e \<Rightarrow> Inl e
           | Inr mean \<Rightarrow>
               (case a_get_variance distribution of
                  Inl e \<Rightarrow> Inl e
                | Inr variance \<Rightarrow>
                    (case a_get_std distribution of
                       Inl e \<Rightarrow> Inl e
                     | Inr std \<Rightarrow>
                         Inr \<lparr> rl_node_id = node_id, rl_distribution = distribution,
                               rl_path = path, rl_cost = cost, rl_quantile_cache = cache,
                               rl_mean_cache = mean, rl_variance_cache = variance,
                               rl_std_cache = std \<rparr>))))"

text \<open>\<^verbatim>\<open>__lt__\<close>: the larger cost comes first (a max-heap through the inverted order).\<close>

definition rl_lt :: "ReverseLabel \<Rightarrow> ReverseLabel \<Rightarrow> bool" where
  "rl_lt self other = (rl_cost self > rl_cost other)"

text \<open>
  \<^verbatim>\<open>get_cached_quantile\<close>: the cached value for a cached level, the distribution's
  quantile otherwise. The source also stores the computed value in the label's cache;
  a later call finds there what it would compute again, so the model leaves the cache
  as the constructor made it.
\<close>

definition get_cached_quantile :: "ReverseLabel \<Rightarrow> real \<Rightarrow> error + real" where
  "get_cached_quantile self alpha =
     (case map_of (rl_quantile_cache self) alpha of
        Some v \<Rightarrow> Inr v
      | None \<Rightarrow> a_get_quantile (rl_distribution self) alpha)"

definition r_dominates_weak ::
  "ReverseLabel \<Rightarrow> ReverseLabel \<Rightarrow> real \<Rightarrow> real \<Rightarrow> error + bool" where
  "r_dominates_weak self other alpha epsilon =
     (if rl_node_id self \<noteq> rl_node_id other then Inr False
      else
        (case get_cached_quantile self (1 - alpha) of
           Inl e \<Rightarrow> Inl e
         | Inr Q_self \<Rightarrow>
             (case get_cached_quantile other (1 - alpha) of
                Inl e \<Rightarrow> Inl e
              | Inr Q_other \<Rightarrow>
                  (let mu_self = rl_mean_cache self; mu_other = rl_mean_cache other;
                       sigma2_self = rl_variance_cache self;
                       sigma2_other = rl_variance_cache other;
                       mu_ok = (mu_self \<ge> mu_other - epsilon);
                       sigma_ok = (sigma2_self \<le> sigma2_other + epsilon);
                       mu_better = (mu_self > mu_other + epsilon);
                       sigma_better = (sigma2_self < sigma2_other - epsilon)
                   in if Q_self > Q_other + epsilon \<and> mu_ok \<and> sigma_ok then Inr True
                      else if Q_self \<ge> Q_other - epsilon \<and> (mu_better \<or> sigma_better)
                              \<and> mu_ok \<and> sigma_ok
                      then Inr True
                      else Inr False))))"

section \<open>The priority queue\<close>

text \<open>
  Python's \<^verbatim>\<open>heapq\<close> on a list, with the comparison \<^verbatim>\<open>__lt__\<close> of the labels as the
  parameter \<open>lt\<close>: \<^verbatim>\<open>_siftdown\<close> moves the new item up towards the root, \<^verbatim>\<open>_siftup\<close>
  moves the hole at \<open>pos\<close> down to a leaf and sifts the item back.
\<close>

function siftdown_loop :: "('a \<Rightarrow> 'a \<Rightarrow> bool) \<Rightarrow> 'a \<Rightarrow> 'a list \<Rightarrow> nat \<Rightarrow> nat \<Rightarrow> 'a list" where
  "siftdown_loop lt newitem heap startpos pos =
     (if pos > startpos then
        (let parentpos = (pos - 1) div 2; parent = heap ! parentpos
         in if lt newitem parent
            then siftdown_loop lt newitem (heap[pos := parent]) startpos parentpos
            else heap[pos := newitem])
      else heap[pos := newitem])"
  by pat_completeness auto
termination
  by (relation "measure (\<lambda>(lt, newitem, heap, startpos, pos). pos)") auto

declare siftdown_loop.simps [simp del]

definition siftdown :: "('a \<Rightarrow> 'a \<Rightarrow> bool) \<Rightarrow> 'a list \<Rightarrow> nat \<Rightarrow> nat \<Rightarrow> 'a list" where
  "siftdown lt heap startpos pos = siftdown_loop lt (heap ! pos) heap startpos pos"

function siftup_loop :: "('a \<Rightarrow> 'a \<Rightarrow> bool) \<Rightarrow> 'a list \<Rightarrow> nat \<Rightarrow> nat \<Rightarrow> 'a list \<times> nat" where
  "siftup_loop lt heap endpos pos =
     (let childpos = 2 * pos + 1
      in if childpos < endpos then
           (let rightpos = childpos + 1;
                childpos' = (if rightpos < endpos \<and> \<not> lt (heap ! childpos) (heap ! rightpos)
                             then rightpos else childpos)
            in siftup_loop lt (heap[pos := heap ! childpos']) endpos childpos')
         else (heap, pos))"
  by pat_completeness auto
termination
  by (relation "measure (\<lambda>(lt, heap, endpos, pos). endpos - pos)") (auto simp: Let_def)

declare siftup_loop.simps [simp del]

definition siftup :: "('a \<Rightarrow> 'a \<Rightarrow> bool) \<Rightarrow> 'a list \<Rightarrow> nat \<Rightarrow> 'a list" where
  "siftup lt heap pos =
     (let newitem = heap ! pos;
          (heap', pos') = siftup_loop lt heap (length heap) pos
      in siftdown_loop lt newitem heap' pos pos')"

definition heappush :: "('a \<Rightarrow> 'a \<Rightarrow> bool) \<Rightarrow> 'a list \<Rightarrow> 'a \<Rightarrow> 'a list" where
  "heappush lt heap item = siftdown lt (heap @ [item]) 0 (length heap)"

text \<open>\<^verbatim>\<open>heappop\<close> of a non-empty heap: the popped item and the heap that is left.\<close>

definition heappop :: "('a \<Rightarrow> 'a \<Rightarrow> bool) \<Rightarrow> 'a list \<Rightarrow> 'a \<times> 'a list" where
  "heappop lt heap =
     (let lastelt = last heap; rest = butlast heap
      in if rest \<noteq> [] then (rest ! 0, siftup lt (rest[0 := lastelt]) 0)
         else (lastelt, rest))"

lemma length_siftdown_loop [simp]:
  "length (siftdown_loop lt newitem heap startpos pos) = length heap"
  by (induction lt newitem heap startpos pos rule: siftdown_loop.induct)
     (subst siftdown_loop.simps, simp add: Let_def)

lemma set_siftdown_loop:
  "set (siftdown_loop lt newitem heap startpos pos) \<subseteq> insert newitem (set heap)"
proof (induction lt newitem heap startpos pos rule: siftdown_loop.induct)
  case (1 lt newitem heap startpos pos)
  show ?case
  proof (cases "pos > startpos \<and> lt newitem (heap ! ((pos - 1) div 2))")
    case True
    then have e: "siftdown_loop lt newitem heap startpos pos =
        siftdown_loop lt newitem (heap[pos := heap ! ((pos - 1) div 2)]) startpos ((pos - 1) div 2)"
      by (subst siftdown_loop.simps) (simp add: Let_def)
    from True 1 have "set (siftdown_loop lt newitem (heap[pos := heap ! ((pos - 1) div 2)])
        startpos ((pos - 1) div 2)) \<subseteq> insert newitem (set (heap[pos := heap ! ((pos - 1) div 2)]))"
      by simp
    moreover have "set (heap[pos := heap ! ((pos - 1) div 2)]) \<subseteq> set heap"
    proof (cases "pos < length heap")
      case pl: True
      with True have "(pos - 1) div 2 < length heap" by auto
      then have "heap ! ((pos - 1) div 2) \<in> set heap" by simp
      then show ?thesis using set_update_subset_insert[of heap pos] by auto
    next
      case False
      then have "heap[pos := heap ! ((pos - 1) div 2)] = heap"
        by (intro list_update_beyond) simp
      then show ?thesis by simp
    qed
    ultimately show ?thesis unfolding e by auto
  next
    case False
    then have "siftdown_loop lt newitem heap startpos pos = heap[pos := newitem]"
      by (subst siftdown_loop.simps) (auto simp: Let_def)
    then show ?thesis using set_update_subset_insert[of heap pos newitem] by simp
  qed
qed

lemma siftup_loop_props:
  "siftup_loop lt heap endpos pos = (heap', pos') \<Longrightarrow> endpos \<le> length heap \<Longrightarrow>
     length heap' = length heap \<and> set heap' \<subseteq> set heap"
proof (induction lt heap endpos pos arbitrary: heap' pos' rule: siftup_loop.induct)
  case (1 lt heap endpos pos)
  show ?case
  proof (cases "2 * pos + 1 < endpos")
    case True
    define c where "c = (if 2 * pos + 1 + 1 < endpos \<and> \<not> lt (heap ! (2 * pos + 1)) (heap ! (2 * pos + 1 + 1))
                             then 2 * pos + 1 + 1 else 2 * pos + 1)"
    from True have cl: "c < endpos" by (simp add: c_def)
    have "siftup_loop lt heap endpos pos = siftup_loop lt (heap[pos := heap ! c]) endpos c"
      using True by (subst siftup_loop.simps) (simp add: Let_def c_def)
    with "1.prems"(1) have e: "siftup_loop lt (heap[pos := heap ! c]) endpos c = (heap', pos')"
      by simp
    from "1.IH"[OF refl True refl refl e[unfolded c_def]] "1.prems"(2)
    have "length heap' = length (heap[pos := heap ! c]) \<and> set heap' \<subseteq> set (heap[pos := heap ! c])"
      by (simp add: c_def)
    moreover from cl "1.prems"(2) have "heap ! c \<in> set heap" by simp
    then have "set (heap[pos := heap ! c]) \<subseteq> set heap"
      using set_update_subset_insert[of heap pos] by auto
    ultimately show ?thesis by auto
  next
    case False
    with "1.prems"(1) have "heap' = heap"
      by (subst (asm) siftup_loop.simps) (simp add: Let_def)
    then show ?thesis by simp
  qed
qed

lemma length_heappush [simp]: "length (heappush lt heap item) = Suc (length heap)"
  by (simp add: heappush_def siftdown_def)

lemma set_heappush: "set (heappush lt heap item) \<subseteq> insert item (set heap)"
proof -
  have "set (heappush lt heap item) \<subseteq> insert ((heap @ [item]) ! length heap) (set (heap @ [item]))"
    unfolding heappush_def siftdown_def by (rule set_siftdown_loop)
  then show ?thesis by auto
qed

lemma heappop_props:
  assumes "heap \<noteq> []" and "heappop lt heap = (item, heap')"
  shows "length heap' = length heap - 1" and "item \<in> set heap" and "set heap' \<subseteq> set heap"
proof -
  let ?rest = "butlast heap"
  have all: "length heap' = length heap - 1 \<and> item \<in> set heap \<and> set heap' \<subseteq> set heap"
  proof (cases "?rest = []")
    case True
    with assms(1) have "length heap = 1" by (cases heap) (auto split: if_splits)
    with True assms show ?thesis by (auto simp: heappop_def Let_def)
  next
    case False
    let ?h = "?rest[0 := last heap]"
    obtain h2 p2 where su: "siftup_loop lt ?h (length ?h) 0 = (h2, p2)"
      by (cases "siftup_loop lt ?h (length ?h) 0")
    then have su': "siftup_loop lt ?h (length heap - Suc 0) 0 = (h2, p2)" by simp
    from siftup_loop_props[OF su] have h2: "length h2 = length ?h" "set h2 \<subseteq> set ?h" by simp_all
    from False assms(2) have item: "item = ?rest ! 0"
      and heap': "heap' = siftdown_loop lt (?h ! 0) h2 0 p2"
      by (simp_all add: heappop_def Let_def siftup_def su')
    have rs: "set ?rest \<subseteq> set heap" by (auto dest: in_set_butlastD)
    from assms(1) have "last heap \<in> set heap" by simp
    with rs have hs: "set ?h \<subseteq> set heap"
      using set_update_subset_insert[of ?rest 0 "last heap"] by auto
    from False have "0 < length ?rest" by (simp del: length_butlast)
    then have "?h ! 0 = last heap" by (rule nth_list_update_eq)
    with heap' have hp: "heap' = siftdown_loop lt (last heap) h2 0 p2" by simp
    have "set heap' \<subseteq> insert (last heap) (set h2)"
      unfolding hp by (rule set_siftdown_loop)
    also have "\<dots> \<subseteq> set heap" using h2(2) hs \<open>last heap \<in> set heap\<close> by blast
    finally have "set heap' \<subseteq> set heap" .
    moreover from \<open>0 < length ?rest\<close> have "?rest ! 0 \<in> set ?rest" by (rule nth_mem)
    with rs item have "item \<in> set heap" by auto
    moreover from hp h2 have "length heap' = length heap - 1" by simp
    ultimately show ?thesis by simp
  qed
  from all show "length heap' = length heap - 1" "item \<in> set heap" "set heap' \<subseteq> set heap"
    by simp_all
qed

section \<open>The forward solver\<close>

text \<open>
  \<^verbatim>\<open>self.stats\<close> is a \<^verbatim>\<open>defaultdict(int)\<close> with four counters; a counter that was never
  touched reads as 0.
\<close>

record search_stats =
  labels_generated :: int
  labels_dominated :: int
  labels_extended :: int
  convolutions :: int

text \<open>
  A solver after \<^verbatim>\<open>__init__\<close>: its parameters, the adjacency list and the
  link-distribution table. Of the graph \<open>G\<close> only the coordinates of the nodes are read
  (a node that is missing or has no coordinates gives \<open>None\<close>).
\<close>

record ForwardLabelSettingSolver =
  fs_L1 :: int
  fs_L2 :: int
  fs_K :: int
  fs_max_labels_per_node :: int
  fs_time_intervals_per_day :: int
  fs_adj_list :: "int \<rightharpoonup> int list"
  fs_link_distributions :: link_table
  fs_node_coords :: "int \<Rightarrow> (real \<times> real) option"

record f_candidate =
  fc_iteration :: int
  fc_path :: "int list"
  fc_path_coords :: "(real \<times> real) list"
  fc_distribution :: ForwardDiscreteDistribution
  fc_earliest_arrival :: real
  fc_expected_arrival :: real
  fc_median_arrival :: real
  fc_std_arrival :: real
  fc_variance :: real
  fc_travel_time :: real
  fc_label :: ForwardLabel
  fc_alpha :: real
  fc_rank :: "int option"
  fc_is_best :: bool

text \<open>The variables of the search loop.\<close>

record f_search_state =
  fo_open_labels :: "ForwardLabel list"
  fo_node_labels :: "int \<Rightarrow> ForwardLabel list"
  fo_destination_candidates :: "f_candidate list"
  fo_stats :: search_stats
  fo_iteration :: int

text \<open>
  The values of a result dictionary; the dictionary itself is a map from its string
  keys.
\<close>

datatype ('d, 'c) pyval =
  PBool bool | PInt int | PFloat real | PPath "int list" | PCoords "(real \<times> real) list"
  | PDist 'd | PCandidates "'c list" | PStats search_stats

text \<open>
  \<^verbatim>\<open>_is_dominated\<close>: under capacity a label is dominated when at least two survivors
  dominate it; at capacity, when the first survivor found does.
\<close>

fun f_any_dominates :: "ForwardLabel list \<Rightarrow> ForwardLabel \<Rightarrow> real \<Rightarrow> error + bool" where
  "f_any_dominates [] label alpha = Inr False"
| "f_any_dominates (existing # rest) label alpha =
     (case f_dominates_weak existing label alpha default_epsilon of
        Inl e \<Rightarrow> Inl e
      | Inr True \<Rightarrow> Inr True
      | Inr False \<Rightarrow> f_any_dominates rest label alpha)"

definition f_is_dominated ::
  "ForwardLabelSettingSolver \<Rightarrow> ForwardLabel \<Rightarrow> ForwardLabel list \<Rightarrow> real \<Rightarrow> error + bool" where
  "f_is_dominated solver label existing_labels alpha =
     (if int (length existing_labels) < fs_max_labels_per_node solver then
        (case collect (\<lambda>existing. f_dominates_weak existing label alpha default_epsilon)
                existing_labels of
           Inl e \<Rightarrow> Inl e
         | Inr flags \<Rightarrow> Inr (length (filter (\<lambda>b. b) flags) \<ge> 2))
      else f_any_dominates existing_labels label alpha)"

text \<open>\<^verbatim>\<open>_prune_labels\<close>: over capacity, the best labels by (quantile, mean, variance).\<close>

definition f_prune_labels ::
  "ForwardLabelSettingSolver \<Rightarrow> ForwardLabel list \<Rightarrow> real \<Rightarrow> error + ForwardLabel list" where
  "f_prune_labels solver labels alpha =
     (if int (length labels) \<le> fs_max_labels_per_node solver then Inr labels
      else
        (case collect
           (\<lambda>label. case f_get_quantile (fl_distribution label) alpha of
                       Inl e \<Rightarrow> Inl e
                     | Inr q \<Rightarrow> Inr ((q, fl_mean_cache label, fl_variance_cache label), label))
           labels of
           Inl e \<Rightarrow> Inl e
         | Inr scored \<Rightarrow>
             Inr (py_take (fs_max_labels_per_node solver) (map snd (sort_key fst scored)))))"

text \<open>
  The body of \<^verbatim>\<open>for successor in self.adj_list[...]\<close>. Only the convolution is inside
  \<^verbatim>\<open>try\<close>: an exception there skips the successor.
\<close>

definition f_expand_successor ::
  "ForwardLabelSettingSolver \<Rightarrow> real \<Rightarrow> ForwardLabel \<Rightarrow> f_search_state \<Rightarrow> int
     \<Rightarrow> error + f_search_state" where
  "f_expand_successor solver alpha current_label s successor =
     (if successor \<in> set (fl_path current_label) then Inr s
      else
        (case forward_convolve (fl_distribution current_label) (fs_link_distributions solver)
                (fs_time_intervals_per_day solver) (fl_node_id current_label) successor
                (fs_L2 solver) (fs_K solver) of
           Inl NonFinite \<Rightarrow> Inl NonFinite
         | Inl e \<Rightarrow> Inr s
         | Inr new_dist \<Rightarrow>
             (case f_get_quantile new_dist alpha of
                Inl e \<Rightarrow> Inl e
              | Inr new_cost \<Rightarrow>
                  (let new_label = ForwardLabel_init successor new_dist
                                     (fl_path current_label @ [successor]) new_cost;
                       stats1 = (fo_stats s)
                         \<lparr> convolutions := convolutions (fo_stats s) + 1,
                           labels_generated := labels_generated (fo_stats s) + 1 \<rparr>;
                       existing = fo_node_labels s successor
                   in case f_is_dominated solver new_label existing alpha of
                        Inl e \<Rightarrow> Inl e
                      | Inr True \<Rightarrow>
                          Inr (s\<lparr> fo_stats :=
                                   stats1\<lparr> labels_dominated := labels_dominated stats1 + 1 \<rparr> \<rparr>)
                      | Inr False \<Rightarrow>
                          (case collect
                                  (\<lambda>old. f_dominates_weak new_label old alpha default_epsilon)
                                  existing of
                             Inl e \<Rightarrow> Inl e
                           | Inr flags \<Rightarrow>
                               (let kept = map fst (filter (\<lambda>(old, dominated). \<not> dominated)
                                                     (zip existing flags));
                                    stats2 = stats1
                                      \<lparr> labels_dominated := labels_dominated stats1
                                           + (int (length existing) - int (length kept)) \<rparr>
                                in case f_prune_labels solver (kept @ [new_label]) alpha of
                                     Inl e \<Rightarrow> Inl e
                                   | Inr pruned \<Rightarrow>
                                       Inr (s\<lparr> fo_open_labels :=
                                                 heappush fl_lt (fo_open_labels s) new_label,
                                               fo_node_labels :=
                                                 (fo_node_labels s)(successor := pruned),
                                               fo_stats := stats2 \<rparr>)))))))"

fun f_expand_successors ::
  "ForwardLabelSettingSolver \<Rightarrow> real \<Rightarrow> ForwardLabel \<Rightarrow> f_search_state \<Rightarrow> int list
     \<Rightarrow> error + f_search_state" where
  "f_expand_successors solver alpha current_label s [] = Inr s"
| "f_expand_successors solver alpha current_label s (successor # rest) =
     (case f_expand_successor solver alpha current_label s successor of
        Inl e \<Rightarrow> Inl e
      | Inr s' \<Rightarrow> f_expand_successors solver alpha current_label s' rest)"

text \<open>\<^verbatim>\<open>_get_path_coordinates\<close>: the coordinates of the nodes that have them.\<close>

definition get_path_coordinates ::
  "(int \<Rightarrow> (real \<times> real) option) \<Rightarrow> int list \<Rightarrow> (real \<times> real) list" where
  "get_path_coordinates node_coords path = List.map_filter node_coords path"

text \<open>The dictionary \<^verbatim>\<open>candidate_info\<close> of a label popped at the destination.\<close>

definition f_candidate_info ::
  "ForwardLabelSettingSolver \<Rightarrow> int \<Rightarrow> real \<Rightarrow> int \<Rightarrow> ForwardLabel \<Rightarrow> error + f_candidate" where
  "f_candidate_info solver departure_time alpha iteration current_label =
     (case f_get_quantile (fl_distribution current_label) alpha of
        Inl e \<Rightarrow> Inl e
      | Inr earliest_arrival \<Rightarrow>
          (case f_get_median (fl_distribution current_label) of
             Inl e \<Rightarrow> Inl e
           | Inr median_arrival \<Rightarrow>
               Inr \<lparr> fc_iteration = iteration,
                     fc_path = fl_path current_label,
                     fc_path_coords =
                       get_path_coordinates (fs_node_coords solver) (fl_path current_label),
                     fc_distribution = fl_distribution current_label,
                     fc_earliest_arrival = earliest_arrival,
                     fc_expected_arrival = fl_mean_cache current_label,
                     fc_median_arrival = median_arrival,
                     fc_std_arrival = fl_std_cache current_label,
                     fc_variance = fl_variance_cache current_label,
                     fc_travel_time = earliest_arrival - real_of_int departure_time,
                     fc_label = current_label,
                     fc_alpha = alpha,
                     fc_rank = None,
                     fc_is_best = False \<rparr>))"

text \<open>
  One pass through the body of the \<^verbatim>\<open>while\<close> loop, for a non-empty queue. The flag of
  the result says whether the pass ended in \<^verbatim>\<open>break\<close>.
\<close>

definition f_iteration ::
  "ForwardLabelSettingSolver \<Rightarrow> int \<Rightarrow> int \<Rightarrow> real \<Rightarrow> int \<Rightarrow> f_search_state
     \<Rightarrow> error + f_search_state \<times> bool" where
  "f_iteration solver destination departure_time alpha K s =
     (let iteration = fo_iteration s + 1;
          (current_label, open_labels) = heappop fl_lt (fo_open_labels s);
          s1 = s\<lparr> fo_open_labels := open_labels, fo_iteration := iteration \<rparr>
      in if fl_node_id current_label = destination then
           (case f_candidate_info solver departure_time alpha iteration current_label of
              Inl e \<Rightarrow> Inl e
            | Inr candidate_info \<Rightarrow>
                (let candidates = fo_destination_candidates s1 @ [candidate_info]
                 in Inr (s1\<lparr> fo_destination_candidates := candidates \<rparr>,
                         int (length candidates) \<ge> K \<and> int (length candidates) \<ge> K * 2)))
         else
           (case f_is_dominated solver current_label
                   (fo_node_labels s1 (fl_node_id current_label)) alpha of
              Inl e \<Rightarrow> Inl e
            | Inr True \<Rightarrow>
                Inr (s1\<lparr> fo_stats := (fo_stats s1)
                          \<lparr> labels_dominated := labels_dominated (fo_stats s1) + 1 \<rparr> \<rparr>, False)
            | Inr False \<Rightarrow>
                (let s2 = s1\<lparr> fo_stats := (fo_stats s1)
                               \<lparr> labels_extended := labels_extended (fo_stats s1) + 1 \<rparr> \<rparr>
                 in case fs_adj_list solver (fl_node_id current_label) of
                      None \<Rightarrow> Inr (s2, False)
                    | Some successors \<Rightarrow>
                        (case f_expand_successors solver alpha current_label s2 successors of
                           Inl e \<Rightarrow> Inl e
                         | Inr s3 \<Rightarrow> Inr (s3, False)))))"

text \<open>
  The loop ends: every pass pops a label, and every label pushed in the pass is counted
  in \<^verbatim>\<open>labels_generated\<close>, so the queue length minus that counter falls with every pass,
  and the loop runs only while the counter is below \<^verbatim>\<open>max_labels\<close>.
\<close>

definition f_potential :: "f_search_state \<Rightarrow> int" where
  "f_potential s = int (length (fo_open_labels s)) - labels_generated (fo_stats s)"

lemma f_expand_successor_potential:
  "f_expand_successor solver alpha cur s succ = Inr s' \<Longrightarrow> f_potential s' \<le> f_potential s"
  by (auto simp: f_expand_successor_def f_potential_def Let_def
      split: if_splits sum.splits error.splits bool.splits)

lemma f_expand_successors_potential:
  "f_expand_successors solver alpha cur s succs = Inr s' \<Longrightarrow> f_potential s' \<le> f_potential s"
proof (induction succs arbitrary: s)
  case Nil
  then show ?case by simp
next
  case (Cons a succs)
  then show ?case
    by (auto split: sum.splits dest!: f_expand_successor_potential) fastforce
qed

lemma f_iteration_potential:
  assumes "f_iteration solver destination departure_time alpha K s = Inr (s', stop)"
    and "fo_open_labels s \<noteq> []"
  shows "f_potential s' < f_potential s"
proof -
  obtain cur rest where hp: "heappop fl_lt (fo_open_labels s) = (cur, rest)"
    by (cases "heappop fl_lt (fo_open_labels s)")
  from heappop_props(1)[OF assms(2) hp] assms(2)
  have l: "int (length rest) = int (length (fo_open_labels s)) - 1"
    by (cases "fo_open_labels s") auto
  from assms(1) show ?thesis
    by (auto simp: f_iteration_def hp Let_def f_potential_def l
        split: if_splits sum.splits bool.splits option.splits
        dest!: f_expand_successors_potential)
qed

text \<open>The \<^verbatim>\<open>while\<close> loop of \<^verbatim>\<open>solve_k_paths\<close>.\<close>

function f_search ::
  "ForwardLabelSettingSolver \<Rightarrow> int \<Rightarrow> int \<Rightarrow> real \<Rightarrow> int \<Rightarrow> int \<Rightarrow> f_search_state
     \<Rightarrow> error + f_search_state" where
  "f_search solver destination departure_time alpha K max_labels s =
     (if fo_open_labels s \<noteq> [] \<and> labels_generated (fo_stats s) < max_labels then
        (case f_iteration solver destination departure_time alpha K s of
           Inl e \<Rightarrow> Inl e
         | Inr (s', stop) \<Rightarrow>
             if stop then Inr s'
             else f_search solver destination departure_time alpha K max_labels s')
      else Inr s)"
  by pat_completeness auto
termination
proof (relation "measure (\<lambda>(solver, destination, departure_time, alpha, K, max_labels, s).
          nat (f_potential s + max_labels))")
  show "wf (measure (\<lambda>(solver, destination, departure_time, alpha, K, max_labels, s).
          nat (f_potential s + max_labels)))" by simp
next
  fix solver :: ForwardLabelSettingSolver and destination departure_time :: int and alpha :: real
    and K max_labels :: int and s :: f_search_state and x2 x y
  assume g: "fo_open_labels s \<noteq> [] \<and> labels_generated (fo_stats s) < max_labels"
    and it: "f_iteration solver destination departure_time alpha K s = Inr x2"
    and x: "(x, y) = x2" and ns: "\<not> y"
  from it x have "f_iteration solver destination departure_time alpha K s = Inr (x, y)" by simp
  from f_iteration_potential[OF this] g have lt: "f_potential x < f_potential s" by simp
  from g have "0 < f_potential s + max_labels" by (simp add: f_potential_def)
  with lt show "((solver, destination, departure_time, alpha, K, max_labels, x),
         solver, destination, departure_time, alpha, K, max_labels, s)
        \<in> measure (\<lambda>(solver, destination, departure_time, alpha, K, max_labels, s).
          nat (f_potential s + max_labels))" by simp
qed

declare f_search.simps [simp del]

text \<open>The state before the loop: the root label at the origin, on the queue and in the node table.\<close>

definition f_initial_state ::
  "ForwardLabelSettingSolver \<Rightarrow> int \<Rightarrow> int \<Rightarrow> error + f_search_state" where
  "f_initial_state solver origin departure_time =
     (case ForwardDiscreteDistribution_init
             (replicate (nat (fs_L1 solver)) (real_of_int departure_time)) (fs_L1 solver)
             (Some (uniform_weights (nat (fs_L1 solver)))) of
        Inl e \<Rightarrow> Inl e
      | Inr init_dist \<Rightarrow>
          (let init_label = ForwardLabel_init origin init_dist [origin]
                              (real_of_int departure_time)
           in Inr \<lparr> fo_open_labels = heappush fl_lt [] init_label,
                    fo_node_labels = (\<lambda>node. [])(origin := [init_label]),
                    fo_destination_candidates = [],
                    fo_stats = \<lparr> labels_generated = 1, labels_dominated = 0,
                                 labels_extended = 0, convolutions = 0 \<rparr>,
                    fo_iteration = 0 \<rparr>))"

text \<open>
  Step 2: the candidates sorted by (quantile, mean, variance), ranked from 1, the first
  one flagged \<^verbatim>\<open>is_best\<close>.
\<close>

definition f_rank_candidates :: "f_candidate list \<Rightarrow> f_candidate list" where
  "f_rank_candidates candidates =
     map (\<lambda>(i, candidate). candidate\<lparr> fc_rank := Some (int i + 1), fc_is_best := (i = 0) \<rparr>)
       (enumerate 0
          (sort_key (\<lambda>c. (fc_earliest_arrival c, fc_expected_arrival c, fc_variance c))
             candidates))"

type_synonym f_result = "string \<rightharpoonup> (ForwardDiscreteDistribution, f_candidate) pyval"

text \<open>
  \<^verbatim>\<open>solve_k_paths\<close>. Printing is left out; \<^verbatim>\<open>total_time\<close>, the wall-clock time the source
  measures, is a parameter.
\<close>

definition f_solve_k_paths ::
  "ForwardLabelSettingSolver \<Rightarrow> int \<Rightarrow> int \<Rightarrow> int \<Rightarrow> real \<Rightarrow> int \<Rightarrow> int \<Rightarrow> real
     \<Rightarrow> error + f_result" where
  "f_solve_k_paths solver origin destination departure_time alpha K max_labels total_time =
     (case f_initial_state solver origin departure_time of
        Inl e \<Rightarrow> Inl e
      | Inr s0 \<Rightarrow>
          (case f_search solver destination departure_time alpha K max_labels s0 of
             Inl e \<Rightarrow> Inl e
           | Inr s \<Rightarrow>
               if fo_destination_candidates s = [] then
                 Inr [''success'' \<mapsto> PBool False,
                      ''total_time'' \<mapsto> PFloat total_time,
                      ''iterations'' \<mapsto> PInt (fo_iteration s),
                      ''stats'' \<mapsto> PStats (fo_stats s),
                      ''num_candidates'' \<mapsto> PInt 0]
               else
                 (let sorted_candidates = f_rank_candidates (fo_destination_candidates s);
                      top_k_candidates = py_take K sorted_candidates
                  in case top_k_candidates of
                       [] \<Rightarrow> Inl IndexError
                     | best_candidate # others \<Rightarrow>
                         Inr [''success'' \<mapsto> PBool True,
                              ''path'' \<mapsto> PPath (fc_path best_candidate),
                              ''path_coords'' \<mapsto> PCoords (fc_path_coords best_candidate),
                              ''earliest_arrival_time'' \<mapsto>
                                PFloat (fc_earliest_arrival best_candidate),
                              ''expected_arrival_time'' \<mapsto>
                                PFloat (fc_expected_arrival best_candidate),
                              ''median_arrival_time'' \<mapsto>
                                PFloat (fc_median_arrival best_candidate),
                              ''std_arrival_time'' \<mapsto> PFloat (fc_std_arrival best_candidate),
                              ''travel_time'' \<mapsto> PFloat (fc_travel_time best_candidate),
                              ''distribution'' \<mapsto> PDist (fc_distribution best_candidate),
                              ''departure_time'' \<mapsto> PInt departure_time,
                              ''top_k_candidates'' \<mapsto> PCandidates top_k_candidates,
                              ''num_candidates'' \<mapsto>
                                PInt (int (length (fo_destination_candidates s))),
                              ''all_candidates'' \<mapsto> PCandidates sorted_candidates,
                              ''total_time'' \<mapsto> PFloat total_time,
                              ''iterations'' \<mapsto> PInt (fo_iteration s),
                              ''alpha'' \<mapsto> PFloat alpha,
                              ''K'' \<mapsto> PInt K,
                              ''origin'' \<mapsto> PInt origin,
                              ''destination'' \<mapsto> PInt destination,
                              ''stats'' \<mapsto> PStats (fo_stats s)])))"

text \<open>\<^verbatim>\<open>result.pop(key, None)\<close>.\<close>

definition dict_pop :: "('k \<rightharpoonup> 'v) \<Rightarrow> 'k \<Rightarrow> ('k \<rightharpoonup> 'v)" where
  "dict_pop d key = d(key := None)"

text \<open>
  \<^verbatim>\<open>solve\<close>: \<^verbatim>\<open>solve_k_paths\<close> with \<open>K = 1\<close>; \<^verbatim>\<open>result['success']\<close> raises KeyError when the
  key is missing.
\<close>

definition f_solve ::
  "ForwardLabelSettingSolver \<Rightarrow> int \<Rightarrow> int \<Rightarrow> int \<Rightarrow> real \<Rightarrow> int \<Rightarrow> real \<Rightarrow> error + f_result" where
  "f_solve solver origin destination departure_time alpha max_labels total_time =
     (case f_solve_k_paths solver origin destination departure_time alpha 1 max_labels
             total_time of
        Inl e \<Rightarrow> Inl e
      | Inr result \<Rightarrow>
          (case result ''success'' of
             None \<Rightarrow> Inl KeyError
           | Some success \<Rightarrow>
               if success = PBool True then
                 Inr (dict_pop (dict_pop (dict_pop (dict_pop result ''top_k_candidates'')
                        ''all_candidates'') ''num_candidates'') ''K'')
               else Inr result))"

section \<open>The reverse solver\<close>

text \<open>
  A reverse solver after \<^verbatim>\<open>__init__\<close>; the search walks \<^verbatim>\<open>reverse_adj_list\<close>. (The
  constructor's argument \<open>K\<close> is not stored.)
\<close>

record ReverseLabelSettingSolver =
  rs_L1 :: int
  rs_L2 :: int
  rs_max_labels_per_node :: int
  rs_time_intervals_per_day :: int
  rs_adj_list :: "int \<rightharpoonup> int list"
  rs_reverse_adj_list :: "int \<rightharpoonup> int list"
  rs_link_distributions :: link_table

record r_candidate =
  rc_iteration :: int
  rc_path :: "int list"
  rc_distribution :: AlphaDiscreteDistribution
  rc_latest_departure :: real
  rc_expected_departure :: real
  rc_median_departure :: real
  rc_std_departure :: real
  rc_variance :: real
  rc_label :: ReverseLabel
  rc_alpha :: real
  rc_rank :: "int option"
  rc_is_best :: bool

record r_search_state =
  ro_open_labels :: "ReverseLabel list"
  ro_node_labels :: "int \<Rightarrow> ReverseLabel list"
  ro_origin_candidates :: "r_candidate list"
  ro_stats :: search_stats
  ro_iteration :: int

fun r_any_dominates :: "ReverseLabel list \<Rightarrow> ReverseLabel \<Rightarrow> real \<Rightarrow> error + bool" where
  "r_any_dominates [] label alpha = Inr False"
| "r_any_dominates (existing # rest) label alpha =
     (case r_dominates_weak existing label alpha default_epsilon of
        Inl e \<Rightarrow> Inl e
      | Inr True \<Rightarrow> Inr True
      | Inr False \<Rightarrow> r_any_dominates rest label alpha)"

definition r_is_dominated ::
  "ReverseLabelSettingSolver \<Rightarrow> ReverseLabel \<Rightarrow> ReverseLabel list \<Rightarrow> real \<Rightarrow> error + bool" where
  "r_is_dominated solver label existing_labels alpha =
     (if int (length existing_labels) < rs_max_labels_per_node solver then
        (case collect (\<lambda>existing. r_dominates_weak existing label alpha default_epsilon)
                existing_labels of
           Inl e \<Rightarrow> Inl e
         | Inr flags \<Rightarrow> Inr (length (filter (\<lambda>b. b) flags) \<ge> 2))
      else r_any_dominates existing_labels label alpha)"

text \<open>
  \<^verbatim>\<open>sorted(xs, key=f, reverse=True)\<close>: descending by key, elements of equal key in their
  input order.
\<close>

definition sorted_reverse :: "('a \<Rightarrow> 'k::linorder) \<Rightarrow> 'a list \<Rightarrow> 'a list" where
  "sorted_reverse f xs = rev (sort_key f (rev xs))"

definition r_prune_labels ::
  "ReverseLabelSettingSolver \<Rightarrow> ReverseLabel list \<Rightarrow> real \<Rightarrow> error + ReverseLabel list" where
  "r_prune_labels solver labels alpha =
     (if int (length labels) \<le> rs_max_labels_per_node solver then Inr labels
      else
        (case collect
           (\<lambda>label. case a_get_quantile (rl_distribution label) (1 - alpha) of
                       Inl e \<Rightarrow> Inl e
                     | Inr q \<Rightarrow> Inr ((q, rl_mean_cache label, - rl_variance_cache label), label))
           labels of
           Inl e \<Rightarrow> Inl e
         | Inr scored \<Rightarrow>
             Inr (py_take (rs_max_labels_per_node solver)
                    (map snd (sorted_reverse fst scored)))))"

text \<open>
  The body of \<^verbatim>\<open>for predecessor in self.reverse_adj_list[...]\<close>; only the convolution
  is inside \<^verbatim>\<open>try\<close>.
\<close>

definition r_expand_predecessor ::
  "ReverseLabelSettingSolver \<Rightarrow> real \<Rightarrow> ReverseLabel \<Rightarrow> r_search_state \<Rightarrow> int
     \<Rightarrow> error + r_search_state" where
  "r_expand_predecessor solver alpha current_label s predecessor =
     (if predecessor \<in> set (rl_path current_label) then Inr s
      else
        (case reverse_convolve (rl_distribution current_label) (rs_link_distributions solver)
                (rs_time_intervals_per_day solver) predecessor (rl_node_id current_label) of
           Inl NonFinite \<Rightarrow> Inl NonFinite
         | Inl e \<Rightarrow> Inr s
         | Inr new_dist \<Rightarrow>
             (case a_get_quantile new_dist (1 - alpha) of
                Inl e \<Rightarrow> Inl e
              | Inr new_cost \<Rightarrow>
                  (case ReverseLabel_init predecessor new_dist
                          (rl_path current_label @ [predecessor]) new_cost of
                     Inl e \<Rightarrow> Inl e
                   | Inr new_label \<Rightarrow>
                       (let stats1 = (ro_stats s)
                              \<lparr> convolutions := convolutions (ro_stats s) + 1,
                                labels_generated := labels_generated (ro_stats s) + 1 \<rparr>;
                            existing = ro_node_labels s predecessor
                        in case r_is_dominated solver new_label existing alpha of
                             Inl e \<Rightarrow> Inl e
                           | Inr True \<Rightarrow>
                               Inr (s\<lparr> ro_stats := stats1
                                        \<lparr> labels_dominated := labels_dominated stats1 + 1 \<rparr> \<rparr>)
                           | Inr False \<Rightarrow>
                               (case collect
                                       (\<lambda>old. r_dominates_weak new_label old alpha
                                                 default_epsilon)
                                       existing of
                                  Inl e \<Rightarrow> Inl e
                                | Inr flags \<Rightarrow>
                                    (let kept = map fst
                                           (filter (\<lambda>(old, dominated). \<not> dominated)
                                              (zip existing flags));
                                         stats2 = stats1
                                           \<lparr> labels_dominated := labels_dominated stats1
                                                + (int (length existing) - int (length kept)) \<rparr>
                                     in case r_prune_labels solver (kept @ [new_label]) alpha of
                                          Inl e \<Rightarrow> Inl e
                                        | Inr pruned \<Rightarrow>
                                            Inr (s\<lparr> ro_open_labels :=
                                                      heappush rl_lt (ro_open_labels s) new_label,
                                                    ro_node_labels :=
                                                      (ro_node_labels s)(predecessor := pruned),
                                                    ro_stats := stats2 \<rparr>))))))))"

fun r_expand_predecessors ::
  "ReverseLabelSettingSolver \<Rightarrow> real \<Rightarrow> ReverseLabel \<Rightarrow> r_search_state \<Rightarrow> int list
     \<Rightarrow> error + r_search_state" where
  "r_expand_predecessors solver alpha current_label s [] = Inr s"
| "r_expand_predecessors solver alpha current_label s (predecessor # rest) =
     (case r_expand_predecessor solver alpha current_label s predecessor of
        Inl e \<Rightarrow> Inl e
      | Inr s' \<Rightarrow> r_expand_predecessors solver alpha current_label s' rest)"

text \<open>
  The dictionary \<^verbatim>\<open>candidate_info\<close> of a label popped at the origin: its \<^verbatim>\<open>path\<close> is the
  label's path reversed.
\<close>

definition r_candidate_info :: "real \<Rightarrow> int \<Rightarrow> ReverseLabel \<Rightarrow> error + r_candidate" where
  "r_candidate_info alpha iteration current_label =
     (case a_get_quantile (rl_distribution current_label) (1 - alpha) of
        Inl e \<Rightarrow> Inl e
      | Inr latest_departure \<Rightarrow>
          (case a_get_median (rl_distribution current_label) of
             Inl e \<Rightarrow> Inl e
           | Inr median_departure \<Rightarrow>
               Inr \<lparr> rc_iteration = iteration,
                     rc_path = rev (rl_path current_label),
                     rc_distribution = rl_distribution current_label,
                     rc_latest_departure = latest_departure,
                     rc_expected_departure = rl_mean_cache current_label,
                     rc_median_departure = median_departure,
                     rc_std_departure = sqrt (rl_variance_cache current_label),
                     rc_variance = rl_variance_cache current_label,
                     rc_label = current_label,
                     rc_alpha = alpha,
                     rc_rank = None,
                     rc_is_best = False \<rparr>))"

definition r_iteration ::
  "ReverseLabelSettingSolver \<Rightarrow> int \<Rightarrow> real \<Rightarrow> int \<Rightarrow> r_search_state
     \<Rightarrow> error + r_search_state \<times> bool" where
  "r_iteration solver origin alpha K s =
     (let iteration = ro_iteration s + 1;
          (current_label, open_labels) = heappop rl_lt (ro_open_labels s);
          s1 = s\<lparr> ro_open_labels := open_labels, ro_iteration := iteration \<rparr>
      in if rl_node_id current_label = origin then
           (case r_candidate_info alpha iteration current_label of
              Inl e \<Rightarrow> Inl e
            | Inr candidate_info \<Rightarrow>
                (let candidates = ro_origin_candidates s1 @ [candidate_info]
                 in Inr (s1\<lparr> ro_origin_candidates := candidates \<rparr>,
                         int (length candidates) \<ge> K \<and> int (length candidates) \<ge> K * 2)))
         else
           (case r_is_dominated solver current_label
                   (ro_node_labels s1 (rl_node_id current_label)) alpha of
              Inl e \<Rightarrow> Inl e
            | Inr True \<Rightarrow>
                Inr (s1\<lparr> ro_stats := (ro_stats s1)
                          \<lparr> labels_dominated := labels_dominated (ro_stats s1) + 1 \<rparr> \<rparr>, False)
            | Inr False \<Rightarrow>
                (let s2 = s1\<lparr> ro_stats := (ro_stats s1)
                               \<lparr> labels_extended := labels_extended (ro_stats s1) + 1 \<rparr> \<rparr>
                 in case rs_reverse_adj_list solver (rl_node_id current_label) of
                      None \<Rightarrow> Inr (s2, False)
                    | Some predecessors \<Rightarrow>
                        (case r_expand_predecessors solver alpha current_label s2
                                predecessors of
                           Inl e \<Rightarrow> Inl e
                         | Inr s3 \<Rightarrow> Inr (s3, False)))))"

definition r_potential :: "r_search_state \<Rightarrow> int" where
  "r_potential s = int (length (ro_open_labels s)) - labels_generated (ro_stats s)"

lemma r_expand_predecessor_potential:
  "r_expand_predecessor solver alpha cur s pred = Inr s' \<Longrightarrow> r_potential s' \<le> r_potential s"
  by (auto simp: r_expand_predecessor_def r_potential_def Let_def
      split: if_splits sum.splits error.splits bool.splits)

lemma r_expand_predecessors_potential:
  "r_expand_predecessors solver alpha cur s preds = Inr s' \<Longrightarrow> r_potential s' \<le> r_potential s"
proof (induction preds arbitrary: s)
  case Nil
  then show ?case by simp
next
  case (Cons a preds)
  then show ?case
    by (auto split: sum.splits dest!: r_expand_predecessor_potential) fastforce
qed

lemma r_iteration_potential:
  assumes "r_iteration solver origin alpha K s = Inr (s', stop)"
    and "ro_open_labels s \<noteq> []"
  shows "r_potential s' < r_potential s"
proof -
  obtain cur rest where hp: "heappop rl_lt (ro_open_labels s) = (cur, rest)"
    by (cases "heappop rl_lt (ro_open_labels s)")
  from heappop_props(1)[OF assms(2) hp] assms(2)
  have l: "int (length rest) = int (length (ro_open_labels s)) - 1"
    by (cases "ro_open_labels s") auto
  from assms(1) show ?thesis
    by (auto simp: r_iteration_def hp Let_def r_potential_def l
        split: if_splits sum.splits bool.splits option.splits
        dest!: r_expand_predecessors_potential)
qed

function r_search ::
  "ReverseLabelSettingSolver \<Rightarrow> int \<Rightarrow> real \<Rightarrow> int \<Rightarrow> int \<Rightarrow> r_search_state
     \<Rightarrow> error + r_search_state" where
  "r_search solver origin alpha K max_labels s =
     (if ro_open_labels s \<noteq> [] \<and> labels_generated (ro_stats s) < max_labels then
        (case r_iteration solver origin alpha K s of
           Inl e \<Rightarrow> Inl e
         | Inr (s', stop) \<Rightarrow>
             if stop then Inr s' else r_search solver origin alpha K max_labels s')
      else Inr s)"
  by pat_completeness auto
termination
proof (relation "measure (\<lambda>(solver, origin, alpha, K, max_labels, s).
          nat (r_potential s + max_labels))")
  show "wf (measure (\<lambda>(solver, origin, alpha, K, max_labels, s).
          nat (r_potential s + max_labels)))" by simp
next
  fix solver :: ReverseLabelSettingSolver and origin :: int and alpha :: real
    and K max_labels :: int and s :: r_search_state and x2 x y
  assume g: "ro_open_labels s \<noteq> [] \<and> labels_generated (ro_stats s) < max_labels"
    and it: "r_iteration solver origin alpha K s = Inr x2"
    and x: "(x, y) = x2" and ns: "\<not> y"
  from it x have "r_iteration solver origin alpha K s = Inr (x, y)" by simp
  from r_iteration_potential[OF this] g have lt: "r_potential x < r_potential s" by simp
  from g have "0 < r_potential s + max_labels" by (simp add: r_potential_def)
  with lt show "((solver, origin, alpha, K, max_labels, x), solver, origin, alpha, K, max_labels, s)
        \<in> measure (\<lambda>(solver, origin, alpha, K, max_labels, s).
          nat (r_potential s + max_labels))" by simp
qed

declare r_search.simps [simp del]

definition r_initial_state ::
  "ReverseLabelSettingSolver \<Rightarrow> int \<Rightarrow> int \<Rightarrow> error + r_search_state" where
  "r_initial_state solver destination target_arrival_time =
     (let init_dist = AlphaDiscreteDistribution_init
            (replicate (nat (rs_L1 solver)) (real_of_int target_arrival_time)) (rs_L1 solver) None
      in case ReverseLabel_init destination init_dist [destination]
                (real_of_int target_arrival_time) of
           Inl e \<Rightarrow> Inl e
         | Inr init_label \<Rightarrow>
             Inr \<lparr> ro_open_labels = heappush rl_lt [] init_label,
                   ro_node_labels = (\<lambda>node. [])(destination := [init_label]),
                   ro_origin_candidates = [],
                   ro_stats = \<lparr> labels_generated = 1, labels_dominated = 0,
                                labels_extended = 0, convolutions = 0 \<rparr>,
                   ro_iteration = 0 \<rparr>)"

text \<open>
  The candidates sorted descending by (quantile, mean, minus variance), ranked from 1.
\<close>

definition r_rank_candidates :: "r_candidate list \<Rightarrow> r_candidate list" where
  "r_rank_candidates candidates =
     map (\<lambda>(i, candidate). candidate\<lparr> rc_rank := Some (int i + 1), rc_is_best := (i = 0) \<rparr>)
       (enumerate 0
          (sorted_reverse
             (\<lambda>c. (rc_latest_departure c, rc_expected_departure c, - rc_variance c))
             candidates))"

type_synonym r_result = "string \<rightharpoonup> (AlphaDiscreteDistribution, r_candidate) pyval"

definition r_solve_k_paths ::
  "ReverseLabelSettingSolver \<Rightarrow> int \<Rightarrow> int \<Rightarrow> int \<Rightarrow> real \<Rightarrow> int \<Rightarrow> int \<Rightarrow> real
     \<Rightarrow> error + r_result" where
  "r_solve_k_paths solver origin destination target_arrival_time alpha K max_labels total_time =
     (case r_initial_state solver destination target_arrival_time of
        Inl e \<Rightarrow> Inl e
      | Inr s0 \<Rightarrow>
          (case r_search solver origin alpha K max_labels s0 of
             Inl e \<Rightarrow> Inl e
           | Inr s \<Rightarrow>
               if ro_origin_candidates s = [] then
                 Inr [''success'' \<mapsto> PBool False,
                      ''total_time'' \<mapsto> PFloat total_time,
                      ''iterations'' \<mapsto> PInt (ro_iteration s),
                      ''stats'' \<mapsto> PStats (ro_stats s),
                      ''num_candidates'' \<mapsto> PInt 0]
               else
                 (let sorted_candidates = r_rank_candidates (ro_origin_candidates s);
                      top_k_candidates = py_take K sorted_candidates
                  in case top_k_candidates of
                       [] \<Rightarrow> Inl IndexError
                     | best_candidate # others \<Rightarrow>
                         Inr [''success'' \<mapsto> PBool True,
                              ''path'' \<mapsto> PPath (rc_path best_candidate),
                              ''latest_departure_time'' \<mapsto>
                                PFloat (rc_latest_departure best_candidate),
                              ''expected_departure_time'' \<mapsto>
                                PFloat (rc_expected_departure best_candidate),
                              ''median_departure_time'' \<mapsto>
                                PFloat (rc_median_departure best_candidate),
                              ''std_departure_time'' \<mapsto>
                                PFloat (rc_std_departure best_candidate),
                              ''reserved_time'' \<mapsto>
                                PFloat (real_of_int target_arrival_time
                                        - rc_latest_departure best_candidate),
                              ''distribution'' \<mapsto> PDist (rc_distribution best_candidate),
                              ''top_k_candidates'' \<mapsto> PCandidates top_k_candidates,
                              ''num_candidates'' \<mapsto>
                                PInt (int (length (ro_origin_candidates s))),
                              ''all_candidates'' \<mapsto> PCandidates sorted_candidates,
                              ''total_time'' \<mapsto> PFloat total_time,
                              ''iterations'' \<mapsto> PInt (ro_iteration s),
                              ''alpha'' \<mapsto> PFloat alpha,
                              ''K'' \<mapsto> PInt K,
                              ''origin'' \<mapsto> PInt origin,
                              ''destination'' \<mapsto> PInt destination,
                              ''target_arrival_time'' \<mapsto> PInt target_arrival_time,
                              ''stats'' \<mapsto> PStats (ro_stats s)])))"

text \<open>
  The reverse \<^verbatim>\<open>solve\<close>: \<^verbatim>\<open>solve_k_paths\<close> with its own \<open>K\<close> (default 5), and, unless
  \<^verbatim>\<open>save_all_paths\<close> is off, copies of \<^verbatim>\<open>all_candidates\<close> and \<^verbatim>\<open>num_candidates\<close> under the
  keys \<^verbatim>\<open>all_paths\<close> and \<^verbatim>\<open>num_candidate_paths\<close>.
\<close>

definition r_solve ::
  "ReverseLabelSettingSolver \<Rightarrow> int \<Rightarrow> int \<Rightarrow> int \<Rightarrow> real \<Rightarrow> int \<Rightarrow> int \<Rightarrow> bool \<Rightarrow> real
     \<Rightarrow> error + r_result" where
  "r_solve solver origin destination target_arrival_time alpha max_labels K save_all_paths
     total_time =
     (case r_solve_k_paths solver origin destination target_arrival_time alpha K max_labels
             total_time of
        Inl e \<Rightarrow> Inl e
      | Inr result \<Rightarrow>
          if save_all_paths \<and> result ''all_candidates'' \<noteq> None then
            (case result ''num_candidates'' of
               None \<Rightarrow> Inl KeyError
             | Some num_candidates \<Rightarrow>
                 Inr (result(''all_paths'' := result ''all_candidates'',
                             ''num_candidate_paths'' \<mapsto> num_candidates)))
          else Inr result)"

text \<open>The defaults of the reverse \<^verbatim>\<open>solve\<close>: \<open>K = 5\<close>, \<^verbatim>\<open>save_all_paths = True\<close>.\<close>

definition r_solve_default ::
  "ReverseLabelSettingSolver \<Rightarrow> int \<Rightarrow> int \<Rightarrow> int \<Rightarrow> real \<Rightarrow> int \<Rightarrow> real \<Rightarrow> error + r_result" where
  "r_solve_default solver origin destination target_arrival_time alpha max_labels total_time =
     r_solve solver origin destination target_arrival_time alpha max_labels 5 True total_time"

section \<open>Properties of the distributions\<close>

lemma sum_list_sort_pairs_snd:
  "length vs = length ws \<Longrightarrow> sum_list (map snd (sort_pairs vs ws)) = sum_list ws"
proof -
  assume l: "length vs = length ws"
  have "mset (sort_pairs vs ws) = mset (zip vs ws)" by (simp add: sort_pairs_def)
  then have "mset (map snd (sort_pairs vs ws)) = mset (map snd (zip vs ws))"
    by (metis mset_map)
  then have "sum_list (map snd (sort_pairs vs ws)) = sum_list (map snd (zip vs ws))"
    by (metis sum_mset_sum_list)
  with l show ?thesis by simp
qed

lemma sum_list_uniform: "0 < n \<Longrightarrow> sum_list (uniform_weights n) = 1"
  by (simp add: uniform_weights_def sum_list_replicate)

lemma sum_list_normalised:
  fixes w :: "real list"
  shows "sum_list w \<noteq> 0 \<Longrightarrow> sum_list (map (\<lambda>x. x / sum_list w) w) = 1"
proof -
  assume nz: "sum_list w \<noteq> 0"
  have "sum_list (map (\<lambda>x. x / c) w) = sum_list w / c" for c
    by (induction w) (simp_all add: add_divide_distrib)
  with nz show ?thesis by simp
qed

lemma length_uniform_weights [simp]: "length (uniform_weights n) = n"
  by (simp add: uniform_weights_def)

lemma forward_init_weights_sum:
  assumes "ForwardDiscreteDistribution_init vals L1 wts = Inr d" and "0 < L1"
  shows "sum_list (f_weights d) = 1"
  using assms
  by (auto simp: ForwardDiscreteDistribution_init_def sum_list_sort_pairs_snd sum_list_uniform
    sum_list_normalised split: if_splits option.splits)

lemma interp_scan_bounds:
  assumes "sorted fp" "length xp = length fp" "xp \<noteq> []" "hd xp \<le> x"
  shows "hd fp \<le> interp_scan x xp fp \<and> interp_scan x xp fp \<le> last fp"
  using assms
proof (induction x xp fp rule: interp_scan.induct)
  case (1 x x0 x1 xp f0 f1 fp)
  show ?case
  proof (cases "x1 \<le> x")
    case True
    with 1 have "f1 \<le> interp_scan x (x1 # xp) (f1 # fp) \<and>
        interp_scan x (x1 # xp) (f1 # fp) \<le> last (f1 # fp)" by simp
    moreover from 1(2) have "f0 \<le> f1" by simp
    ultimately show ?thesis using True by simp
  next
    case False
    from 1(2) have f01: "f0 \<le> f1" by simp
    from 1(2) have f1l: "f1 \<le> last (f1 # fp)" by (cases fp) auto
    from 1(5) have x0: "x0 \<le> x" by simp
    show ?thesis
    proof (cases "x0 = x")
      case True
      with False f01 f1l show ?thesis by simp
    next
      case ne: False
      with x0 False have lt: "x0 < x" "x < x1" by auto
      then have pos: "0 < x1 - x0" by simp
      define t where "t = (x - x0) / (x1 - x0)"
      have t: "0 \<le> t" "t \<le> 1" using lt pos by (simp_all add: t_def divide_simps)
      have eq: "(f1 - f0) / (x1 - x0) * (x - x0) + f0 = f0 + t * (f1 - f0)"
        by (simp add: t_def)
      have d: "0 \<le> f1 - f0" using f01 by simp
      have "0 \<le> t * (f1 - f0)" using t(1) d by (rule mult_nonneg_nonneg)
      moreover have "t * (f1 - f0) \<le> 1 * (f1 - f0)"
        using t(2) d by (rule mult_right_mono)
      ultimately have "f0 \<le> f0 + t * (f1 - f0)" "f0 + t * (f1 - f0) \<le> f1" by simp_all
      with eq f1l False ne show ?thesis by simp
    qed
  qed
next
  case (2 x x0 f0 fp)
  then show ?case by simp
qed simp_all

lemma interp_scan_mono:
  assumes "sorted fp" "length xp = length fp" "xp \<noteq> []" "hd xp \<le> x" "x \<le> y"
  shows "interp_scan x xp fp \<le> interp_scan y xp fp"
  using assms
proof (induction x xp fp rule: interp_scan.induct)
  case (1 x x0 x1 xp f0 f1 fp)
  from 1(2) have f01: "f0 \<le> f1" and s1: "sorted (f1 # fp)" by simp_all
  from 1(5) have x0: "x0 \<le> x" by simp
  show ?case
  proof (cases "x1 \<le> x")
    case True
    with 1 s1 have "interp_scan x (x1 # xp) (f1 # fp) \<le> interp_scan y (x1 # xp) (f1 # fp)"
      by simp
    with True 1(6) show ?thesis by simp
  next
    case False
    have bx: "interp_scan x (x0 # x1 # xp) (f0 # f1 # fp) \<le> f1"
    proof -
      have "interp_scan x [x0, x1] [f0, f1] \<le> last [f0, f1]"
        using interp_scan_bounds[of "[f0, f1]" "[x0, x1]" x] f01 x0 by simp
      with False show ?thesis by simp
    qed
    show ?thesis
    proof (cases "x1 \<le> y")
      case True
      have "f1 \<le> interp_scan y (x1 # xp) (f1 # fp)"
        using interp_scan_bounds[of "f1 # fp" "x1 # xp" y] s1 1(3) True by simp
      with bx True show ?thesis by simp
    next
      case yl: False
      show ?thesis
      proof (cases "x0 = x")
        case True
        have "f0 \<le> interp_scan y [x0, x1] [f0, f1]"
          using interp_scan_bounds[of "[f0, f1]" "[x0, x1]" y] f01 x0 1(6) by simp
        with True False yl show ?thesis by simp
      next
        case ne: False
        with x0 have lt: "x0 < x" by simp
        with 1(6) have ney: "x0 \<noteq> y" by simp
        from lt False have pos: "0 < x1 - x0" by simp
        have sl: "0 \<le> (f1 - f0) / (x1 - x0)" using f01 pos by simp
        have "(f1 - f0) / (x1 - x0) * (x - x0) \<le> (f1 - f0) / (x1 - x0) * (y - x0)"
          using sl 1(6) by (intro mult_left_mono) simp_all
        with False yl ne ney show ?thesis by simp
      qed
    qed
  qed
next
  case (2 x x0 f0 fp)
  then show ?case by simp
qed simp_all

lemma sorted_hd_le_last:
  fixes fp :: "real list"
  shows "sorted fp \<Longrightarrow> fp \<noteq> [] \<Longrightarrow> hd fp \<le> last fp"
  by (cases fp) auto

lemma interp_val_bounds:
  assumes "sorted fp" "length xp = length fp" "xp \<noteq> []"
  shows "hd fp \<le> interp_val x xp fp \<and> interp_val x xp fp \<le> last fp"
proof -
  from assms have ne: "fp \<noteq> []" by auto
  with assms(1) have hl: "hd fp \<le> last fp" by (rule sorted_hd_le_last)
  show ?thesis
    using interp_scan_bounds[OF assms, of x] hl by (auto simp: interp_val_def)
qed

lemma interp_val_mono:
  assumes "sorted fp" "length xp = length fp" "xp \<noteq> []" "x \<le> y"
  shows "interp_val x xp fp \<le> interp_val y xp fp"
proof (cases "x < hd xp")
  case True
  then have "interp_val x xp fp = hd fp" by (simp add: interp_val_def)
  with interp_val_bounds[OF assms(1-3), of y] show ?thesis by simp
next
  case xl: False
  show ?thesis
  proof (cases "last xp < y")
    case True
    with assms(4) xl have "interp_val y xp fp = last fp" by (auto simp: interp_val_def)
    with interp_val_bounds[OF assms(1-3), of x] show ?thesis by simp
  next
    case False
    with assms(4) xl have "interp_val x xp fp = interp_scan x xp fp"
      "interp_val y xp fp = interp_scan y xp fp" by (auto simp: interp_val_def)
    with interp_scan_mono[OF assms(1-3) _ assms(4)] xl show ?thesis by simp
  qed
qed

lemma length_cumsum_from [simp]: "length (cumsum_from a ws) = length ws"
  by (induction ws arbitrary: a) simp_all

lemma length_np_cumsum [simp]: "length (np_cumsum ws) = length ws"
  by (simp add: np_cumsum_def)

lemma np_cumsum_eq_Nil [simp]: "np_cumsum ws = [] \<longleftrightarrow> ws = []"
  by (metis length_np_cumsum length_0_conv)

lemma sorted_fst_sort_pairs [simp]: "sorted (map fst (sort_pairs vs ws))"
  by (simp add: sort_pairs_def)

lemma length_sort_pairs [simp]: "length (sort_pairs vs ws) = min (length vs) (length ws)"
  by (simp add: sort_pairs_def)

lemma sort_pairs_eq_Nil [simp]: "sort_pairs vs ws = [] \<longleftrightarrow> vs = [] \<or> ws = []"
proof -
  have "sort_pairs vs ws = [] \<longleftrightarrow> length (sort_pairs vs ws) = 0"
    by (rule length_0_conv[symmetric])
  also have "\<dots> \<longleftrightarrow> vs = [] \<or> ws = []" by (cases vs; cases ws) simp_all
  finally show ?thesis .
qed

lemma set_fst_sort_pairs:
  "length vs \<le> length ws \<Longrightarrow> set (map fst (sort_pairs vs ws)) = set vs"
proof -
  assume l: "length vs \<le> length ws"
  have "set (map fst (sort_pairs vs ws)) = fst ` set (zip vs ws)"
    by (simp add: sort_pairs_def)
  also have "\<dots> = set (map fst (zip vs ws))" by simp
  also have "\<dots> = set vs" using l by (simp add: map_fst_zip_take)
  finally show ?thesis .
qed

lemma sorted_hd_Min:
  fixes xs :: "real list"
  shows "sorted xs \<Longrightarrow> xs \<noteq> [] \<Longrightarrow> hd xs = Min (set xs)"
  by (cases xs) (auto intro!: Min_eqI[symmetric])

lemma sorted_last_Max:
  fixes xs :: "real list"
  shows "sorted xs \<Longrightarrow> xs \<noteq> [] \<Longrightarrow> last xs = Max (set xs)"
proof (induction xs)
  case Nil
  then show ?case by simp
next
  case (Cons a xs)
  show ?case
  proof (cases "xs = []")
    case True
    then show ?thesis by simp
  next
    case False
    with Cons have "last xs = Max (set xs)" by simp
    moreover from Cons(2) False have "a \<le> Max (set xs)"
      by (metis List.finite_set Max_ge last_in_set calculation order_trans sorted_simps(2) order_refl)
    ultimately show ?thesis using False by (simp add: max_def)
  qed
qed

text \<open>A quantile function put together as both classes do it.\<close>

lemma quantile_shape_mono:
  fixes vs :: "real list"
  assumes s: "sorted vs" and l: "length xp = length vs" and ne: "vs \<noteq> []"
    and q: "\<And>x. q x = (if x \<le> 0 then hd vs else if 1 \<le> x then last vs else interp_val x xp vs)"
    and ab: "a \<le> b"
  shows "q a \<le> q b"
proof -
  from l ne have xne: "xp \<noteq> []" by auto
  have rng: "hd vs \<le> q x \<and> q x \<le> last vs" for x
    using interp_val_bounds[OF s l xne, of x] sorted_hd_le_last[OF s ne] by (simp add: q)
  show ?thesis
  proof (cases "a \<le> 0")
    case True
    then have "q a = hd vs" by (simp add: q)
    with rng[of b] show ?thesis by simp
  next
    case a0: False
    show ?thesis
    proof (cases "1 \<le> b")
      case True
      with a0 ab have "q b = last vs" by (simp add: q)
      with rng[of a] show ?thesis by simp
    next
      case False
      with a0 ab have "q a = interp_val a xp vs" "q b = interp_val b xp vs"
        by (simp_all add: q)
      with interp_val_mono[OF s l xne ab] show ?thesis by simp
    qed
  qed
qed

lemma forward_init_cases:
  assumes "ForwardDiscreteDistribution_init vals L1 wts = Inr d"
  obtains w where "length w = length vals" and "int (length vals) = L1"
    and "d = \<lparr> f_values = map fst (sort_pairs vals w), f_L1 = L1,
                 f_weights = map snd (sort_pairs vals w) \<rparr>"
    and "wts = None \<and> w = uniform_weights (nat L1) \<or>
         (\<exists>w0. wts = Some w0 \<and> length w0 = length vals \<and>
            (if sum_list w0 > 0 then w = map (\<lambda>x. x / sum_list w0) w0
             else w = uniform_weights (nat L1)))"
  using assms
  by (auto simp: ForwardDiscreteDistribution_init_def split: if_splits option.splits)

lemma forward_init_shape:
  assumes "ForwardDiscreteDistribution_init vals L1 wts = Inr d"
  shows "int (length vals) = L1" and "f_L1 d = L1"
    and "length (f_values d) = length vals" and "length (f_weights d) = length vals"
    and "sorted (f_values d)" and "set (f_values d) = set vals"
proof -
  from assms obtain w where w: "length w = length vals" "int (length vals) = L1"
    "d = \<lparr> f_values = map fst (sort_pairs vals w), f_L1 = L1,
                 f_weights = map snd (sort_pairs vals w) \<rparr>"
    by (rule forward_init_cases)
  show "int (length vals) = L1" by (rule w(2))
  show "f_L1 d = L1" by (simp add: w(3))
  show "length (f_values d) = length vals" by (simp add: w(3) w(1))
  show "length (f_weights d) = length vals" by (simp add: w(3) w(1))
  show "sorted (f_values d)" by (simp add: w(3))
  have "set (map fst (sort_pairs vals w)) = set vals"
    by (rule set_fst_sort_pairs) (simp add: w(1))
  then show "set (f_values d) = set vals" by (simp add: w(3))
qed

lemma f_get_quantile_eq:
  assumes "f_values d \<noteq> []" "length (f_weights d) = length (f_values d)"
  shows "f_get_quantile d x =
    Inr (if x \<le> 0 then hd (f_values d) else if 1 \<le> x then last (f_values d)
         else interp_val x (np_cumsum (f_weights d)) (f_values d))"
  using assms by (auto simp: f_get_quantile_def np_interp_def)

lemma forward_quantile_props:
  assumes init: "ForwardDiscreteDistribution_init vals L1 wts = Inr d" and ne: "vals \<noteq> []"
  shows "f_get_quantile d 0 = Inr (Min (set vals))"
    and "f_get_quantile d 1 = Inr (Max (set vals))"
    and "a \<le> b \<Longrightarrow> \<exists>qa qb. f_get_quantile d a = Inr qa \<and> f_get_quantile d b = Inr qb \<and> qa \<le> qb"
proof -
  note sh = forward_init_shape[OF init]
  from sh(3) ne have vne: "f_values d \<noteq> []" by auto
  from sh(3,4) have len: "length (f_weights d) = length (f_values d)" by simp
  note qe = f_get_quantile_eq[OF vne len]
  show "f_get_quantile d 0 = Inr (Min (set vals))"
    using sorted_hd_Min[OF sh(5) vne] sh(6) by (simp add: qe)
  show "f_get_quantile d 1 = Inr (Max (set vals))"
    using sorted_last_Max[OF sh(5) vne] sh(6) by (simp add: qe)
  assume ab: "a \<le> b"
  define q where "q x = (if x \<le> 0 then hd (f_values d) else if 1 \<le> x then last (f_values d)
         else interp_val x (np_cumsum (f_weights d)) (f_values d))" for x
  have "q a \<le> q b"
    by (rule quantile_shape_mono[OF sh(5) _ vne _ ab, of "np_cumsum (f_weights d)"])
       (simp_all add: len q_def)
  then show "\<exists>qa qb. f_get_quantile d a = Inr qa \<and> f_get_quantile d b = Inr qb \<and> qa \<le> qb"
    by (simp add: qe q_def)
qed

lemma a_get_quantile_eq:
  assumes "a_values d \<noteq> []" "length (a_values d) \<le> length (a_weights d)"
  shows "a_get_quantile d x =
    Inr (if x \<le> 0 then Min (set (a_values d)) else if 1 \<le> x then Max (set (a_values d))
         else interp_val x (np_cumsum (map snd (sort_pairs (a_values d) (a_weights d))))
                (map fst (sort_pairs (a_values d) (a_weights d))))"
proof -
  from assms have "a_weights d \<noteq> []" by auto
  with assms show ?thesis by (auto simp: a_get_quantile_def np_interp_def Let_def)
qed

lemma alpha_quantile_mono:
  assumes ne: "a_values d \<noteq> []" and len: "length (a_values d) \<le> length (a_weights d)"
    and ab: "a \<le> b"
  shows "\<exists>qa qb. a_get_quantile d a = Inr qa \<and> a_get_quantile d b = Inr qb \<and> qa \<le> qb"
proof -
  let ?ps = "sort_pairs (a_values d) (a_weights d)"
  have s: "sorted (map fst ?ps)" by simp
  have st: "set (map fst ?ps) = set (a_values d)" using len by (rule set_fst_sort_pairs)
  with ne have pne: "map fst ?ps \<noteq> []" by (metis set_empty)
  define q where "q x = (if x \<le> 0 then hd (map fst ?ps) else if 1 \<le> x then last (map fst ?ps)
         else interp_val x (np_cumsum (map snd ?ps)) (map fst ?ps))" for x
  have "q a \<le> q b"
    by (rule quantile_shape_mono[OF s _ pne _ ab, of "np_cumsum (map snd ?ps)"])
       (simp_all add: q_def)
  moreover have "a_get_quantile d x = Inr (q x)" for x
    unfolding q_def a_get_quantile_eq[OF ne len]
    using sorted_hd_Min[OF s pne] sorted_last_Max[OF s pne] st by simp
  ultimately show ?thesis by simp
qed

definition nonneg_weights :: "real list option \<Rightarrow> bool" where
  "nonneg_weights wts = (case wts of None \<Rightarrow> True | Some w \<Rightarrow> list_all (\<lambda>x. 0 \<le> x) w)"

definition weights_cover :: "real list \<Rightarrow> real list option \<Rightarrow> bool" where
  "weights_cover vals wts = (case wts of None \<Rightarrow> True | Some w \<Rightarrow> length vals \<le> length w)"

lemma uniform_weights_eq_Nil [simp]: "uniform_weights n = [] \<longleftrightarrow> n = 0"
  by (simp add: uniform_weights_def)

lemma alpha_init_shape:
  assumes "weights_cover vals wts"
  shows "a_values (AlphaDiscreteDistribution_init vals L1 wts) = vals"
    and "length vals \<le> length (a_weights (AlphaDiscreteDistribution_init vals L1 wts))"
  using assms
  by (auto simp: AlphaDiscreteDistribution_init_def weights_cover_def Let_def
      split: option.splits)

text \<open>
  C4. For a distribution constructed from at least one value, \<open>get_quantile(0)\<close> is the
  minimum of the values, \<open>get_quantile(1)\<close> is their maximum, and \<open>get_quantile\<close> never
  decreases when \<open>alpha\<close> grows, in the forward and in the reverse class. The weights are
  those of a distribution: none negative (the cumulative weights that \<^verbatim>\<open>np.interp\<close> gets
  as sample points are then non-decreasing, as numpy requires), and, in the reverse
  class, which does not check it, at least one weight for every value.
\<close>

theorem get_quantile_min_max_monotone:
  assumes "fvals \<noteq> []" and "ForwardDiscreteDistribution_init fvals L1 fw = Inr fd"
    and "nonneg_weights fw"
    and "avals \<noteq> []" and "ad = AlphaDiscreteDistribution_init avals L1' aw"
    and "nonneg_weights aw" and "weights_cover avals aw"
    and "a \<le> b"
  shows "f_get_quantile fd 0 = Inr (Min (set fvals)) \<and>
         f_get_quantile fd 1 = Inr (Max (set fvals)) \<and>
         (\<exists>qa qb. f_get_quantile fd a = Inr qa \<and> f_get_quantile fd b = Inr qb \<and> qa \<le> qb) \<and>
         a_get_quantile ad 0 = Inr (Min (set avals)) \<and>
         a_get_quantile ad 1 = Inr (Max (set avals)) \<and>
         (\<exists>qa qb. a_get_quantile ad a = Inr qa \<and> a_get_quantile ad b = Inr qb \<and> qa \<le> qb)"
proof -
  note f = forward_quantile_props[OF assms(2) assms(1)]
  note sh = alpha_init_shape[OF assms(7), of L1', folded assms(5)]
  from sh(1) assms(4) have ne: "a_values ad \<noteq> []" by simp
  from sh have len: "length (a_values ad) \<le> length (a_weights ad)" by simp
  have a0: "a_get_quantile ad 0 = Inr (Min (set avals))"
    and a1: "a_get_quantile ad 1 = Inr (Max (set avals))"
    using sh(1) by (simp_all add: a_get_quantile_eq[OF ne len])
  from f(1) f(2) f(3)[OF assms(8)] a0 a1 alpha_quantile_mono[OF ne len assms(8)]
  show ?thesis by simp
qed

theorem get_quantile_min_max_monotone_witness:
  "f_get_quantile \<lparr> f_values = [1, 2, 3], f_L1 = 3, f_weights = [1 / 4, 1 / 2, 1 / 4] \<rparr> 0
     = Inr 1 \<and>
   a_get_quantile (AlphaDiscreteDistribution_init [3, 1, 2] 3 (Some [1, 1, 2])) 1 = Inr 3 \<and>
   (\<exists>qa qb.
      a_get_quantile (AlphaDiscreteDistribution_init [3, 1, 2] 3 (Some [1, 1, 2])) (1 / 4)
        = Inr qa \<and>
      a_get_quantile (AlphaDiscreteDistribution_init [3, 1, 2] 3 (Some [1, 1, 2])) (3 / 4)
        = Inr qb \<and> qa \<le> qb)"
proof -
  have i: "ForwardDiscreteDistribution_init [3, 1, 2] 3 (Some [1, 1, 2]) =
      Inr \<lparr> f_values = [1, 2, 3], f_L1 = 3, f_weights = [1 / 4, 1 / 2, 1 / 4] \<rparr>"
    by (simp add: ForwardDiscreteDistribution_init_def sort_pairs_def)
  have n: "nonneg_weights (Some [1, 1, 2])"
    by (simp add: nonneg_weights_def)
  have c: "weights_cover [3, 1, 2] (Some [1, 1, 2])" by (simp add: weights_cover_def)
  have ab: "(1 / 4 :: real) \<le> 3 / 4" by simp
  show ?thesis
    using get_quantile_min_max_monotone[where L1' = 3, OF _ i n _ refl n c ab]
    by simp
qed

section \<open>Properties of the forward convolution\<close>










definition point_mass_link :: LinkTimeDistribution where
  "point_mass_link = \<lparr> time_prob = [(10, 1)], times = [10], cdf = [1], time_slot = Some 0 \<rparr>"

lemma point_mass_link_init: "LinkTimeDistribution_init [(10, 1)] (Some 0) = Inr point_mass_link"
  by (simp add: LinkTimeDistribution_init_def point_mass_link_def np_cumsum_def)











section \<open>Lengths of the convolution outputs\<close>




lemma alpha_init_fields [simp]:
  "a_values (AlphaDiscreteDistribution_init vals L1 wts) = vals"
  "a_L1 (AlphaDiscreteDistribution_init vals L1 wts) = L1"
  by (simp_all add: AlphaDiscreteDistribution_init_def Let_def)



















section \<open>Properties of the dominance rule\<close>

text \<open>
  C3. With the tolerance \<open>\<epsilon>\<close> (\<open>1e-6\<close> unless the caller says otherwise) in every
  comparison: label \<open>A\<close> dominates label \<open>B\<close> exactly when both are at the same node and
  \<open>A\<close>'s quantile is smaller by more than \<open>\<epsilon>\<close>, or the quantiles differ by at most \<open>\<epsilon>\<close>
  and \<open>A\<close>'s mean is smaller by more than \<open>\<epsilon>\<close>, or quantiles and means both differ by at
  most \<open>\<epsilon>\<close> and \<open>A\<close>'s variance is smaller by more than \<open>\<epsilon>\<close>. For labels at different nodes
  the answer is False, whatever their distributions.
\<close>

theorem forward_dominance_rule:
  "(nA \<noteq> nB \<longrightarrow>
      f_dominates_weak (ForwardLabel_init nA dA pA cA) (ForwardLabel_init nB dB pB cB) alpha eps
        = Inr False) \<and>
   (f_get_quantile dA alpha = Inr qA \<and> f_get_quantile dB alpha = Inr qB \<longrightarrow>
      f_dominates_weak (ForwardLabel_init nA dA pA cA) (ForwardLabel_init nB dB pB cB) alpha eps
        = Inr (nA = nB \<and>
               (qA < qB - eps \<or>
                \<bar>qA - qB\<bar> \<le> eps \<and> f_get_mean dA < f_get_mean dB - eps \<or>
                \<bar>qA - qB\<bar> \<le> eps \<and> \<bar>f_get_mean dA - f_get_mean dB\<bar> \<le> eps \<and>
                  f_get_variance dA < f_get_variance dB - eps)))"
  by (auto simp: f_dominates_weak_def ForwardLabel_init_def Let_def)

lemma example_quantile_tie:
  "f_get_quantile \<lparr> f_values = [10, 10], f_L1 = 2, f_weights = [1 / 2, 1 / 2] \<rparr> (1 / 2) = Inr 10"
  "f_get_quantile \<lparr> f_values = [10, 14], f_L1 = 2, f_weights = [1 / 2, 1 / 2] \<rparr> (1 / 2) = Inr 10"
  by (simp_all add: f_get_quantile_def np_interp_def np_cumsum_def interp_val_def)

theorem forward_dominance_rule_witness:
  "f_dominates_weak
     (ForwardLabel_init 1 \<lparr> f_values = [10, 10], f_L1 = 2, f_weights = [1 / 2, 1 / 2] \<rparr> [0, 1] 10)
     (ForwardLabel_init 1 \<lparr> f_values = [10, 14], f_L1 = 2, f_weights = [1 / 2, 1 / 2] \<rparr> [0, 1] 10)
     (1 / 2) default_epsilon = Inr True \<and>
   f_dominates_weak
     (ForwardLabel_init 1 \<lparr> f_values = [10, 10], f_L1 = 2, f_weights = [1 / 2, 1 / 2] \<rparr> [0, 1] 10)
     (ForwardLabel_init 2 \<lparr> f_values = [10, 14], f_L1 = 2, f_weights = [1 / 2, 1 / 2] \<rparr> [0, 2] 10)
     (1 / 2) default_epsilon = Inr False"
  using forward_dominance_rule[where nA = 1 and nB = 1 and alpha = "1 / 2" and
      eps = default_epsilon and qA = 10 and qB = 10 and pA = "[0, 1]" and pB = "[0, 1]" and
      cA = 10 and cB = 10 and
      dA = "\<lparr> f_values = [10, 10], f_L1 = 2, f_weights = [1 / 2, 1 / 2] \<rparr>" and
      dB = "\<lparr> f_values = [10, 14], f_L1 = 2, f_weights = [1 / 2, 1 / 2] \<rparr>"]
    forward_dominance_rule[where nA = 1 and nB = 2 and alpha = "1 / 2" and
      eps = default_epsilon and pA = "[0, 1]" and pB = "[0, 2]" and
      cA = 10 and cB = 10 and
      dA = "\<lparr> f_values = [10, 10], f_L1 = 2, f_weights = [1 / 2, 1 / 2] \<rparr>" and
      dB = "\<lparr> f_values = [10, 14], f_L1 = 2, f_weights = [1 / 2, 1 / 2] \<rparr>"]
    example_quantile_tie
  by (simp add: f_get_mean_def default_epsilon_def)

section \<open>Weights after construction\<close>

lemma alpha_init_weights_sum:
  "0 < sum_list w \<Longrightarrow> sum_list (a_weights (AlphaDiscreteDistribution_init vals L1 (Some w))) = 1"
  "vals \<noteq> [] \<Longrightarrow> sum_list (a_weights (AlphaDiscreteDistribution_init vals L1 None)) = 1"
  by (auto simp: AlphaDiscreteDistribution_init_def Let_def sum_list_normalised sum_list_uniform)

text \<open>
  C5 at weights that sum to zero: the forward constructor replaces them by uniform
  weights, the reverse \<^verbatim>\<open>__post_init__\<close> keeps them, and they sum to 0, not to 1.
\<close>

theorem alpha_init_keeps_zero_weights:
  "ForwardDiscreteDistribution_init [1, 2] 2 (Some [0, 0])
     = Inr \<lparr> f_values = [1, 2], f_L1 = 2, f_weights = [1 / 2, 1 / 2] \<rparr> \<and>
   AlphaDiscreteDistribution_init [1, 2] 2 (Some [0, 0])
     = \<lparr> a_values = [1, 2], a_L1 = 2, a_weights = [0, 0] \<rparr> \<and>
   sum_list (a_weights (AlphaDiscreteDistribution_init [1, 2] 2 (Some [0, 0]))) \<noteq> 1"
  by (simp add: ForwardDiscreteDistribution_init_def AlphaDiscreteDistribution_init_def
      sort_pairs_def uniform_weights_def numeral_2_eq_2)

section \<open>Properties of the forward search\<close>












lemma set_py_take: "set (py_take n xs) \<subseteq> set xs"
  by (auto simp: py_take_def dest: in_set_takeD)


subsection \<open>A network with one edge\<close>

definition edge_solver :: ForwardLabelSettingSolver where
  "edge_solver = \<lparr> fs_L1 = 2, fs_L2 = 1, fs_K = 100, fs_max_labels_per_node = 20,
     fs_time_intervals_per_day = 1, fs_adj_list = [1 \<mapsto> [2]],
     fs_link_distributions = [((1, 2, 0), point_mass_link)],
     fs_node_coords = (\<lambda>node. None) \<rparr>"

definition root_dist :: ForwardDiscreteDistribution where
  "root_dist = \<lparr> f_values = [0, 0], f_L1 = 2, f_weights = [1 / 2, 1 / 2] \<rparr>"

definition root_label :: "int \<Rightarrow> ForwardLabel" where
  "root_label origin = \<lparr> fl_node_id = origin, fl_distribution = root_dist, fl_path = [origin],
     fl_cost = 0, fl_alpha = 95 / 100, fl_mean_cache = 0, fl_variance_cache = 0,
     fl_std_cache = 0 \<rparr>"

lemma heappush_empty: "heappush lt [] x = [x]"
  by (simp add: heappush_def siftdown_def siftdown_loop.simps)

lemma heappop_single: "heappop lt [x] = (x, [])"
  by (simp add: heappop_def)

lemma root_label_init: "ForwardLabel_init origin root_dist [origin] 0 = root_label origin"
  by (simp add: ForwardLabel_init_def root_label_def root_dist_def f_get_mean_def
      f_get_variance_def f_get_std_def)

lemma edge_initial: "f_initial_state edge_solver origin 0 =
   Inr \<lparr> fo_open_labels = [root_label origin],
         fo_node_labels = (\<lambda>node. [])(origin := [root_label origin]),
         fo_destination_candidates = [],
         fo_stats = \<lparr> labels_generated = 1, labels_dominated = 0,
                      labels_extended = 0, convolutions = 0 \<rparr>,
         fo_iteration = 0 \<rparr>"
proof -
  have "ForwardDiscreteDistribution_init (replicate (nat 2) 0) 2 (Some (uniform_weights (nat 2)))
          = Inr root_dist"
    by (simp add: ForwardDiscreteDistribution_init_def uniform_weights_def numeral_2_eq_2
        sort_pairs_def root_dist_def)
  then show ?thesis
    by (simp add: f_initial_state_def edge_solver_def heappush_empty root_label_init Let_def)
qed

lemma root_label_sel:
  "fl_node_id (root_label origin) = origin" "fl_path (root_label origin) = [origin]"
  "fl_distribution (root_label origin) = root_dist" "fl_mean_cache (root_label origin) = 0"
  "fl_variance_cache (root_label origin) = 0" "fl_std_cache (root_label origin) = 0"
  "fl_cost (root_label origin) = 0"
  by (simp_all add: root_label_def)

lemma root_quantile: "f_get_quantile root_dist (1 / 2) = Inr 0"
  by (simp add: root_dist_def f_get_quantile_def np_interp_def np_cumsum_def interp_val_def)























section \<open>Properties of the reverse search\<close>

lemma r_search_invariant:
  assumes "r_search solver origin alpha K max_labels s = Inr s'"
    and "P s"
    and "\<And>s s' stop. P s \<Longrightarrow> ro_open_labels s \<noteq> [] \<Longrightarrow>
           r_iteration solver origin alpha K s = Inr (s', stop) \<Longrightarrow> P s'"
  shows "P s'"
  using assms
proof (induction solver origin alpha K max_labels s rule: r_search.induct)
  case (1 solver origin alpha K max_labels s)
  note step = "1.prems"(3)
  show ?case
  proof (cases "ro_open_labels s \<noteq> [] \<and> labels_generated (ro_stats s) < max_labels")
    case True
    with "1.prems"(1) obtain s1 stop where
      it: "r_iteration solver origin alpha K s = Inr (s1, stop)"
      and r: "if stop then s' = s1 else r_search solver origin alpha K max_labels s1 = Inr s'"
      by (subst (asm) r_search.simps) (auto split: sum.splits if_splits)
    from True have ne: "ro_open_labels s \<noteq> []" by simp
    from step[OF "1.prems"(2) ne it] have p1: "P s1" .
    show ?thesis
    proof (cases stop)
      case True
      with r p1 show ?thesis by simp
    next
      case False
      with r have "r_search solver origin alpha K max_labels s1 = Inr s'" by simp
      from "1.IH"[OF True it refl False this p1 step] show ?thesis .
    qed
  next
    case False
    with "1.prems" show ?thesis by (subst (asm) r_search.simps) auto
  qed
qed

lemma ReverseLabel_init_fields:
  assumes "ReverseLabel_init node_id distribution path cost = Inr l"
  shows "rl_node_id l = node_id" "rl_distribution l = distribution" "rl_path l = path"
    "rl_cost l = cost"
  using assms by (auto simp: ReverseLabel_init_def split: sum.splits)

definition r_path_ok :: "int \<Rightarrow> ReverseLabel \<Rightarrow> bool" where
  "r_path_ok destination l \<longleftrightarrow>
     rl_path l \<noteq> [] \<and> hd (rl_path l) = destination \<and> last (rl_path l) = rl_node_id l \<and>
     distinct (rl_path l)"

definition r_candidate_ok :: "int \<Rightarrow> int \<Rightarrow> r_candidate \<Rightarrow> bool" where
  "r_candidate_ok origin destination c \<longleftrightarrow>
     rc_path c = rev (rl_path (rc_label c)) \<and>
     rl_path (rc_label c) \<noteq> [] \<and> hd (rl_path (rc_label c)) = destination \<and>
     last (rl_path (rc_label c)) = origin \<and> distinct (rl_path (rc_label c))"

definition r_paths_inv :: "int \<Rightarrow> int \<Rightarrow> r_search_state \<Rightarrow> bool" where
  "r_paths_inv origin destination s \<longleftrightarrow>
     list_all (r_path_ok destination) (ro_open_labels s) \<and>
     list_all (r_candidate_ok origin destination) (ro_origin_candidates s)"

lemma r_expand_predecessor_paths:
  assumes "r_expand_predecessor solver alpha cur s pred = Inr s'"
    and "r_path_ok destination cur" and "list_all (r_path_ok destination) (ro_open_labels s)"
  shows "list_all (r_path_ok destination) (ro_open_labels s') \<and>
         ro_origin_candidates s' = ro_origin_candidates s"
proof -
  have new: "r_path_ok destination l"
    if "pred \<notin> set (rl_path cur)" "ReverseLabel_init pred d (rl_path cur @ [pred]) c = Inr l"
    for d c l
    using assms(2) that(1) ReverseLabel_init_fields[OF that(2)]
    by (auto simp: r_path_ok_def)
  have push: "list_all (r_path_ok destination) (heappush rl_lt (ro_open_labels s) l)"
    if "r_path_ok destination l" for l
    using set_heappush[of rl_lt "ro_open_labels s" l] assms(3) that
    by (auto simp: list_all_iff)
  from assms(1,3) show ?thesis
    by (auto simp: r_expand_predecessor_def Let_def new push
        split: if_splits sum.splits error.splits bool.splits)
qed

lemma r_expand_predecessors_paths:
  assumes "r_expand_predecessors solver alpha cur s preds = Inr s'"
    and "r_path_ok destination cur" and "list_all (r_path_ok destination) (ro_open_labels s)"
  shows "list_all (r_path_ok destination) (ro_open_labels s') \<and>
         ro_origin_candidates s' = ro_origin_candidates s"
  using assms
proof (induction preds arbitrary: s)
  case Nil
  then show ?case by simp
next
  case (Cons a preds)
  from Cons.prems(1) obtain s1 where
    e: "r_expand_predecessor solver alpha cur s a = Inr s1"
    and r: "r_expand_predecessors solver alpha cur s1 preds = Inr s'"
    by (auto split: sum.splits)
  from r_expand_predecessor_paths[OF e Cons.prems(2,3)]
  have 1: "list_all (r_path_ok destination) (ro_open_labels s1)"
    and 2: "ro_origin_candidates s1 = ro_origin_candidates s" by simp_all
  from Cons.IH[OF r Cons.prems(2) 1] 2 show ?case by simp
qed

lemma r_iteration_paths:
  assumes inv: "r_paths_inv origin destination s"
    and ne: "ro_open_labels s \<noteq> []"
    and it: "r_iteration solver origin alpha K s = Inr (s', stop)"
  shows "r_paths_inv origin destination s'"
proof -
  obtain cur rest where hp: "heappop rl_lt (ro_open_labels s) = (cur, rest)"
    by (cases "heappop rl_lt (ro_open_labels s)")
  note pp = heappop_props[OF ne hp]
  from inv pp have cur: "r_path_ok destination cur"
    and rest: "list_all (r_path_ok destination) rest"
    by (auto simp: r_paths_inv_def list_all_iff)
  from inv have cands: "list_all (r_candidate_ok origin destination) (ro_origin_candidates s)"
    by (simp add: r_paths_inv_def)
  show ?thesis
  proof (cases "rl_node_id cur = origin")
    case True
    with it obtain ci where
      ci: "r_candidate_info alpha (ro_iteration s + 1) cur = Inr ci"
      and s': "s' = s\<lparr> ro_open_labels := rest, ro_iteration := ro_iteration s + 1,
                       ro_origin_candidates := ro_origin_candidates s @ [ci] \<rparr>"
      by (auto simp: r_iteration_def hp Let_def split: sum.splits)
    from ci cur True have "r_candidate_ok origin destination ci"
      by (auto simp: r_candidate_info_def r_candidate_ok_def r_path_ok_def split: sum.splits)
    with cands rest show ?thesis by (simp add: r_paths_inv_def s')
  next
    case False
    have "list_all (r_path_ok destination) (ro_open_labels s') \<and>
          ro_origin_candidates s' = ro_origin_candidates s"
      using it False rest
      by (auto simp: r_iteration_def hp Let_def
          split: sum.splits bool.splits option.splits
          dest!: r_expand_predecessors_paths[where destination = destination, OF _ cur])
    with cands show ?thesis by (simp add: r_paths_inv_def)
  qed
qed

lemma r_initial_state_paths:
  assumes "r_initial_state solver destination target_arrival_time = Inr s0"
  shows "r_paths_inv origin destination s0"
proof -
  from assms obtain d l where
    l: "ReverseLabel_init destination d [destination] (real_of_int target_arrival_time) = Inr l"
    and s0: "ro_open_labels s0 = heappush rl_lt [] l" "ro_origin_candidates s0 = []"
    by (auto simp: r_initial_state_def Let_def split: sum.splits)
  from ReverseLabel_init_fields[OF l] have ok: "r_path_ok destination l"
    by (simp add: r_path_ok_def)
  have "set (heappush rl_lt [] l) \<subseteq> {l}"
    using set_heappush[of rl_lt "[]" l] by simp
  with ok have "list_all (r_path_ok destination) (heappush rl_lt [] l)"
    by (auto simp: list_all_iff)
  with s0 show ?thesis by (simp add: r_paths_inv_def)
qed

lemma r_search_paths:
  assumes "r_initial_state solver destination target_arrival_time = Inr s0"
    and "r_search solver origin alpha K max_labels s0 = Inr s"
  shows "list_all (r_candidate_ok origin destination) (ro_origin_candidates s)"
proof -
  have "r_paths_inv origin destination s"
    by (rule r_search_invariant[OF assms(2), where P = "r_paths_inv origin destination"])
       (rule r_initial_state_paths[OF assms(1)], erule (2) r_iteration_paths)
  then show ?thesis by (simp add: r_paths_inv_def)
qed

lemma set_sorted_reverse [simp]: "set (sorted_reverse f xs) = set xs"
  by (simp add: sorted_reverse_def)

lemma r_rank_candidates_elem:
  assumes "x \<in> set (r_rank_candidates cs)"
  shows "\<exists>c \<in> set cs. \<exists>r b. x = c\<lparr> rc_rank := r, rc_is_best := b \<rparr>"
proof -
  from assms obtain i c where
    ic: "(i, c) \<in> set (enumerate 0
          (sorted_reverse (\<lambda>c. (rc_latest_departure c, rc_expected_departure c, - rc_variance c))
             cs))"
    and x: "x = c\<lparr> rc_rank := Some (int i + 1), rc_is_best := (i = 0) \<rparr>"
    by (auto simp: r_rank_candidates_def)
  from ic have "c \<in> set (sorted_reverse (\<lambda>c. (rc_latest_departure c, rc_expected_departure c,
      - rc_variance c)) cs)"
    by (metis in_set_zipE enumerate_eq_zip)
  then have "c \<in> set cs" by simp
  with x show ?thesis by blast
qed

text \<open>
  C10. Every candidate that the reverse \<^verbatim>\<open>solve_k_paths\<close> returns, in \<^verbatim>\<open>all_candidates\<close> or
  in \<^verbatim>\<open>top_k_candidates\<close>, has as \<^verbatim>\<open>path\<close> the reversal of its label's path. The label's
  path starts at the destination and ends at the origin, so the reported path starts at
  the origin and ends at the destination.
\<close>

theorem reverse_candidates_paths:
  assumes "r_solve_k_paths solver origin destination target_arrival_time alpha K max_labels
             total_time = Inr result"
    and "result ''all_candidates'' = Some (PCandidates cs) \<or>
         result ''top_k_candidates'' = Some (PCandidates cs)"
    and "c \<in> set cs"
  shows "rc_path c = rev (rl_path (rc_label c)) \<and>
         hd (rl_path (rc_label c)) = destination \<and> last (rl_path (rc_label c)) = origin \<and>
         rc_path c \<noteq> [] \<and> hd (rc_path c) = origin \<and> last (rc_path c) = destination"
proof -
  from assms(1) obtain s0 s where
    i: "r_initial_state solver destination target_arrival_time = Inr s0"
    and f: "r_search solver origin alpha K max_labels s0 = Inr s"
    by (auto simp: r_solve_k_paths_def split: sum.splits)
  let ?all = "r_rank_candidates (ro_origin_candidates s)"
  from assms(1,2) i f have "cs = ?all \<or> cs = py_take K ?all"
    by (auto simp: r_solve_k_paths_def Let_def split: if_splits list.splits)
  with assms(3) set_py_take[of K ?all] have "c \<in> set ?all" by auto
  then obtain c0 r b where c0: "c0 \<in> set (ro_origin_candidates s)"
    and c: "c = c0\<lparr> rc_rank := r, rc_is_best := b \<rparr>"
    by (blast dest: r_rank_candidates_elem)
  from r_search_paths[OF i f] c0 have "r_candidate_ok origin destination c0"
    by (simp add: list_all_iff)
  then show ?thesis
    by (simp add: r_candidate_ok_def c hd_rev last_rev)
qed

subsection \<open>Distributions with a single value\<close>

definition const_dist :: "nat \<Rightarrow> real \<Rightarrow> AlphaDiscreteDistribution" where
  "const_dist n c = \<lparr> a_values = replicate n c, a_L1 = int n, a_weights = uniform_weights n \<rparr>"

lemma uniform_normalised:
  "0 < n \<Longrightarrow> map (\<lambda>x. x / sum_list (uniform_weights n)) (uniform_weights n) = uniform_weights n"
  by (simp add: sum_list_uniform)

lemma alpha_init_const:
  assumes "0 < n"
  shows "AlphaDiscreteDistribution_init (replicate n c) (int n) None = const_dist n c"
  using assms
  by (simp add: AlphaDiscreteDistribution_init_def const_dist_def Let_def sum_list_uniform)

lemma alpha_init_const_uniform:
  assumes "0 < n"
  shows "AlphaDiscreteDistribution_init (replicate n c) (int n) (Some (uniform_weights n))
         = const_dist n c"
  using assms
  by (simp add: AlphaDiscreteDistribution_init_def const_dist_def Let_def sum_list_uniform)

lemma interp_val_const:
  assumes "length xp = n" "0 < n"
  shows "interp_val x xp (replicate n c) = c"
proof -
  from assms have ne: "xp \<noteq> []" by auto
  have s: "sorted (replicate n c)" by (simp add: sorted_replicate)
  from interp_val_bounds[OF s _ ne, of x] assms
  have "hd (replicate n c) \<le> interp_val x xp (replicate n c) \<and>
        interp_val x xp (replicate n c) \<le> last (replicate n c)" by simp
  with assms(2) show ?thesis by (simp add: hd_replicate last_replicate)
qed

lemma sort_pairs_const:
  "length ws = n \<Longrightarrow> sort_pairs (replicate n c) ws = zip (replicate n c) ws"
  unfolding sort_pairs_def
  by (rule sort_key_id_if_sorted) (simp add: map_fst_zip_take sorted_replicate)

lemma const_quantile:
  assumes "0 < n"
  shows "a_get_quantile (const_dist n c) alpha = Inr c"
proof -
  from assms have st: "set (replicate n c) = {c}" by auto
  have sp: "sort_pairs (replicate n c) (uniform_weights n)
            = zip (replicate n c) (uniform_weights n)"
    by (rule sort_pairs_const) simp
  have m: "map fst (zip (replicate n c) (uniform_weights n)) = replicate n c"
    by (simp add: map_fst_zip_take)
  have "interp_val alpha (np_cumsum (map snd (zip (replicate n c) (uniform_weights n))))
          (replicate n c) = c"
    by (rule interp_val_const) (simp_all add: assms)
  with assms show ?thesis
    by (simp add: a_get_quantile_def const_dist_def st sp m np_interp_def Let_def)
qed

lemma sum_list_const_weighted:
  "0 < n \<Longrightarrow> (\<Sum>(x, y)\<leftarrow>zip (replicate n c) (uniform_weights n). x * y) = (c :: real)"
proof -
  assume n: "0 < n"
  have "zip (replicate n c) (uniform_weights n) = replicate n (c, 1 / real n)"
    by (simp add: uniform_weights_def zip_replicate)
  then have "(\<Sum>(x, y)\<leftarrow>zip (replicate n c) (uniform_weights n). x * y)
      = sum_list (replicate n (c * (1 / real n)))" by simp
  also have "\<dots> = real n * (c * (1 / real n))" by (simp add: sum_list_replicate)
  also have "\<dots> = c" using n by simp
  finally show ?thesis .
qed

lemma const_mean: "0 < n \<Longrightarrow> a_get_mean (const_dist n c) = Inr c"
  by (simp add: a_get_mean_def np_mul_def const_dist_def sum_list_const_weighted)

lemma const_variance: "0 < n \<Longrightarrow> a_get_variance (const_dist n c) = Inr 0"
proof -
  assume n: "0 < n"
  have z: "(\<Sum>(x, y)\<leftarrow>zip (uniform_weights n) (map (\<lambda>v. (v - c)\<^sup>2) (replicate n c)). x * y) = 0"
    by (simp add: uniform_weights_def zip_replicate sum_list_replicate)
  have m: "np_mul (a_weights (const_dist n c)) (map (\<lambda>v. (v - c)\<^sup>2) (a_values (const_dist n c)))
           = Inr (map (\<lambda>(x, y). x * y) (zip (uniform_weights n) (map (\<lambda>v. (v - c)\<^sup>2) (replicate n c))))"
    by (simp add: np_mul_def const_dist_def)
  show ?thesis
    unfolding a_get_variance_def const_mean[OF n] using z
    by (simp only: m sum.case)
qed

lemma const_std: "0 < n \<Longrightarrow> a_get_std (const_dist n c) = Inr 0"
  by (simp add: a_get_std_def const_variance)

lemma const_median: "0 < n \<Longrightarrow> a_get_median (const_dist n c) = Inr c"
  by (auto simp: a_get_median_def np_median_def const_dist_def Let_def sort_replicate)

subsection \<open>An edge with a travel time of 10 in every slot\<close>

definition constant_edge :: "link_table \<Rightarrow> int \<Rightarrow> int \<Rightarrow> bool" where
  "constant_edge lds u v =
     (list_ex (\<lambda>((a, b, s), D). a = u \<and> b = v) lds \<and>
      list_all (\<lambda>((a, b, s), D). a = u \<and> b = v \<longrightarrow> time_prob D = [(10, 1)] \<and> times D = [10])
        lds)"

lemma constant_edge_slots:
  assumes "constant_edge lds u v"
  shows "get_available_slots lds u v \<noteq> []"
proof -
  from assms obtain a b s D where "((a, b, s), D) \<in> set lds" "a = u" "b = v"
    by (auto simp: constant_edge_def list_ex_iff)
  then have "s \<in> set (get_available_slots lds u v)"
    by (force simp: get_available_slots_def List.map_filter_def)
  then show ?thesis by auto
qed

lemma available_slot_lookup:
  assumes "s \<in> set (get_available_slots lds u v)"
  shows "\<exists>D. map_of lds (u, v, s) = Some D"
proof -
  from assms obtain D where "((u, v, s), D) \<in> set lds"
    by (auto simp: get_available_slots_def List.map_filter_def split: if_splits)
  then have "(u, v, s) \<in> fst ` set lds" by force
  then have "map_of lds (u, v, s) \<noteq> None" by (simp add: map_of_eq_None_iff)
  then show ?thesis by auto
qed

lemma constant_edge_lookup:
  assumes "constant_edge lds u v" and "map_of lds (u, v, s) = Some D"
  shows "time_prob D = [(10, 1)] \<and> times D = [10]"
proof -
  from assms(2) have "((u, v, s), D) \<in> set lds" by (rule map_of_SomeD)
  with assms(1) show ?thesis by (auto simp: constant_edge_def list_all_iff)
qed

lemma constant_edge_at_slot:
  assumes "constant_edge lds u v"
    and "get_link_distribution_at_slot lds tipd u v s = Some D"
  shows "time_prob D = [(10, 1)] \<and> times D = [10]"
  using assms(2) constant_edge_lookup[OF assms(1)]
  by (auto simp: get_link_distribution_at_slot_def Let_def split: option.splits list.splits)

lemma available_slot_at_slot:
  assumes "s \<in> set (get_available_slots lds u v)"
  shows "get_link_distribution_at_slot lds tipd u v s \<noteq> None"
  using available_slot_lookup[OF assms]
  by (auto simp: get_link_distribution_at_slot_def)

lemma find_nearest_slot_loop_mem:
  "find_nearest_slot_loop target tipd md best slots \<in> insert best (set slots)"
  by (induction slots arbitrary: md best) (auto simp: Let_def)

lemma find_nearest_slot_mem:
  "slots \<noteq> [] \<Longrightarrow> find_nearest_slot target slots tipd \<in> set slots"
  using find_nearest_slot_loop_mem[of target tipd None "hd slots" slots]
  by (auto simp: find_nearest_slot_def)

lemma constant_edge_slot_distribution:
  assumes "constant_edge lds u v" and "tipd \<noteq> 0"
  shows "\<exists>D. slot_distribution lds tipd u v (get_available_slots lds u v) t = Inr (Some D)
             \<and> time_prob D = [(10, 1)] \<and> times D = [10]"
proof -
  let ?av = "get_available_slots lds u v"
  let ?slot = "py_int (t / 10) mod tipd"
  show ?thesis
  proof (cases "get_link_distribution_at_slot lds tipd u v ?slot")
    case (Some D)
    with constant_edge_at_slot[OF assms(1) Some] assms(2) show ?thesis
      by (simp add: slot_distribution_def)
  next
    case None
    from constant_edge_slots[OF assms(1)]
    have "find_nearest_slot ?slot ?av tipd \<in> set ?av" by (rule find_nearest_slot_mem)
    from available_slot_at_slot[OF this]
    obtain D where D: "get_link_distribution_at_slot lds tipd u v
                         (find_nearest_slot ?slot ?av tipd) = Some D" by auto
    with constant_edge_at_slot[OF assms(1) D] None assms(2) show ?thesis
      by (simp add: slot_distribution_def)
  qed
qed

lemma travel_range_constant:
  assumes "constant_edge lds u v"
    and "acc = (None, 0) \<or> acc = (Some 10, 10)"
  shows "travel_range lds tipd u v acc slots = (None, 0) \<and> acc = (None, 0)
           \<and> (\<forall>s \<in> set slots. get_link_distribution_at_slot lds tipd u v s = None)
         \<or> travel_range lds tipd u v acc slots = (Some 10, 10)"
  using assms(2)
proof (induction slots arbitrary: acc)
  case Nil
  then show ?case by auto
next
  case (Cons s slots)
  show ?case
  proof (cases "get_link_distribution_at_slot lds tipd u v s")
    case None
    with Cons.IH[OF Cons.prems] show ?thesis
      by (cases acc) auto
  next
    case (Some D)
    from constant_edge_at_slot[OF assms(1) Some] have t: "times D = [10]" by simp
    have "travel_range lds tipd u v acc (s # slots)
          = travel_range lds tipd u v (Some 10, 10) slots"
      using Cons.prems Some t by auto
    with Cons.IH[of "(Some 10, 10)"] show ?thesis by auto
  qed
qed

lemma constant_edge_travel_range:
  assumes "constant_edge lds u v"
  shows "travel_range lds tipd u v (None, 0) (get_available_slots lds u v) = (Some 10, 10)"
proof -
  from constant_edge_slots[OF assms] obtain s where
    s: "s \<in> set (get_available_slots lds u v)"
    by (cases "get_available_slots lds u v") auto
  from travel_range_constant[OF assms, of "(None, 0)" tipd "get_available_slots lds u v"]
    available_slot_at_slot[OF s, of tipd] s
  show ?thesis by auto
qed

lemma py_round_of_int [simp]: "py_round (real_of_int k) = k"
  by (simp add: py_round_def)

lemma dict_add_const:
  "foldl (\<lambda>acc (t_arr, weight). dict_add acc (py_round t_arr) weight) [(c, a)]
     (replicate k (real_of_int c, w)) = [(c, a + real k * w)]"
  by (induction k arbitrary: a) (simp_all add: algebra_simps)

lemma arrival_probs_const:
  assumes "0 < n"
  shows "arrival_probs_of (const_dist n (real_of_int c)) = [(c, 1)]"
proof -
  from assms obtain k where n: "n = Suc k" by (cases n) auto
  have z: "zip (replicate n (real_of_int c)) (uniform_weights n)
           = replicate n (real_of_int c, 1 / real n)"
    by (simp add: uniform_weights_def zip_replicate)
  have "foldl (\<lambda>acc (t_arr, weight). dict_add acc (py_round t_arr) weight) []
          (replicate n (real_of_int c, 1 / real n))
        = [(c, 1 / real n + real k * (1 / real n))]"
    unfolding n using dict_add_const[of c "1 / real (Suc k)" k "1 / real (Suc k)"]
    by simp
  also have "1 / real n + real k * (1 / real n) = 1"
    unfolding n by (simp add: field_simps)
  finally show ?thesis
    by (simp add: arrival_probs_of_def const_dist_def z)
qed

lemma constant_departure_prob:
  assumes "time_prob D = [(10, 1)]"
  shows "departure_prob D [(c, 1)] (c - 10) = Inr 1"
proof -
  have "py_round 10 = 10" using py_round_of_int[of 10] by simp
  then have "get_probability D (real_of_int (c - (c - 10))) = Inr 1"
    using assms by (simp add: get_probability_def)
  then show ?thesis by (simp add: departure_prob_def)
qed

lemma constant_departure_probs:
  assumes "constant_edge lds u v" and "tipd \<noteq> 0"
  shows "departure_probs_of lds tipd u v (get_available_slots lds u v) [(c, 1)] [c - 10]
         = Inr [(c - 10, 1)]"
proof -
  from constant_edge_slot_distribution[OF assms, of "real_of_int c - 10"]
  obtain D where D: "slot_distribution lds tipd u v (get_available_slots lds u v)
                       (real_of_int c - 10) = Inr (Some D)"
    and tp: "time_prob D = [(10, 1)]" by auto
  show ?thesis
    by (simp add: departure_probs_of_def D constant_departure_prob[OF tp])
qed

lemma constant_departure_table:
  assumes "constant_edge lds u v" and "tipd \<noteq> 0" and "0 < n"
  shows "departure_table (const_dist n (real_of_int c)) lds tipd u v
         = Inr (real_of_int (c - 10), [(c - 10, 1)])"
proof -
  have st: "set (replicate n (real_of_int c)) = {real_of_int c}" using assms(3) by auto
  have fl: "\<lfloor>real_of_int c - 10\<rfloor> = c - 10" "\<lceil>real_of_int c - 10\<rceil> = c - 10"
    by linarith+
  have cd: "[c - 10 .. c - 10] = [c - 10]" by (simp add: upto_rec1)
  have v: "a_values (const_dist n (real_of_int c)) = replicate n (real_of_int c)"
    "a_weights (const_dist n (real_of_int c)) = uniform_weights n"
    by (simp_all add: const_dist_def)
  show ?thesis
    unfolding departure_table_def Let_def
    using constant_edge_slots[OF assms(1)] assms(3)
    by (simp add: constant_edge_travel_range[OF assms(1)] v st fl cd
        arrival_probs_const[OF assms(3)] constant_departure_probs[OF assms(1,2)]
        del: travel_range.simps)
qed

lemma target_quantiles_length:
  "target_quantiles n = Inr tq \<Longrightarrow> length tq = nat n"
  by (auto simp: target_quantiles_def np_linspace_def split: if_splits)

lemma constant_resample:
  assumes "0 < n"
  shows "resample_departures (const_dist n c') [(d, 1)] 1 = Inr (const_dist n (real_of_int d))"
proof -
  have sp: "sort_pairs (replicate n (real_of_int d)) (uniform_weights n)
            = zip (replicate n (real_of_int d)) (uniform_weights n)"
    by (rule sort_pairs_const) simp
  have m: "map fst (zip (replicate n (real_of_int d)) (uniform_weights n))
             = replicate n (real_of_int d)"
    "map snd (zip (replicate n (real_of_int d)) (uniform_weights n)) = uniform_weights n"
    by (simp_all add: map_fst_zip_take map_snd_zip_take)
  have l1: "a_L1 (const_dist n c') = int n" by (simp add: const_dist_def)
  show ?thesis
  proof (cases "n = 1")
    case True
    have u1: "uniform_weights (Suc 0) = [1]" by (simp add: uniform_weights_def)
    from sp m alpha_init_const_uniform[of 1 "real_of_int d"] True
    show ?thesis
      unfolding resample_departures_def Let_def l1
      by (simp add: u1)
  next
    case False
    with assms have n1: "1 < n" by simp
    obtain tq where tq: "target_quantiles (int n) = Inr tq"
      by (auto simp: target_quantiles_def)
    from target_quantiles_length[OF tq] have ltq: "length tq = n" by simp
    have iv: "\<And>q. interp_val q [1] [real_of_int d] = real_of_int d"
      using interp_val_const[of "[1]" 1 _ "real_of_int d"] by simp
    have ia: "np_interp_array tq (np_cumsum [1]) [real_of_int d]
              = Inr (replicate n (real_of_int d))"
      by (simp add: np_interp_array_def np_cumsum_def iv map_replicate_const ltq)
    from n1 show ?thesis
      unfolding resample_departures_def Let_def l1
      by (simp add: tq ia sp m sum_list_uniform alpha_init_const_uniform)
  qed
qed

lemma constant_reverse_convolve:
  assumes "constant_edge lds u v" and "tipd \<noteq> 0" and "0 < n"
  shows "reverse_convolve (const_dist n (real_of_int c)) lds tipd u v
         = Inr (const_dist n (real_of_int (c - 10)))"
  by (simp add: reverse_convolve_def constant_departure_table[OF assms]
      constant_resample[OF assms(3)])

subsection \<open>The reverse search on one edge\<close>

definition const_label :: "int \<Rightarrow> nat \<Rightarrow> real \<Rightarrow> int list \<Rightarrow> ReverseLabel" where
  "const_label node n c path =
     \<lparr> rl_node_id = node, rl_distribution = const_dist n c, rl_path = path, rl_cost = c,
       rl_quantile_cache =
         map (\<lambda>q. (q, c))
           [1 / 100, 5 / 100, 1 / 10, 25 / 100, 1 / 2, 75 / 100, 9 / 10, 95 / 100, 99 / 100],
       rl_mean_cache = c, rl_variance_cache = 0, rl_std_cache = 0 \<rparr>"

lemma const_label_sel [simp]:
  "rl_node_id (const_label node n c path) = node"
  "rl_distribution (const_label node n c path) = const_dist n c"
  "rl_path (const_label node n c path) = path"
  "rl_cost (const_label node n c path) = c"
  "rl_mean_cache (const_label node n c path) = c"
  "rl_variance_cache (const_label node n c path) = 0"
  by (simp_all add: const_label_def)

lemma const_label_init:
  "0 < n \<Longrightarrow> ReverseLabel_init node (const_dist n c) path c = Inr (const_label node n c path)"
  by (simp add: ReverseLabel_init_def const_quantile const_mean const_variance const_std
      const_label_def)

lemma const_label_cached:
  assumes "0 < n"
  shows "get_cached_quantile (const_label node n c path) a = Inr c"
proof (cases "map_of (rl_quantile_cache (const_label node n c path)) a")
  case None
  then show ?thesis by (simp add: get_cached_quantile_def const_quantile[OF assms])
next
  case (Some x)
  from map_of_SomeD[OF this] have "x = c" by (auto simp: const_label_def)
  with Some show ?thesis by (simp add: get_cached_quantile_def)
qed

lemma r_dominates_weak_self:
  assumes "get_cached_quantile l (1 - alpha) = Inr q"
  shows "r_dominates_weak l l alpha default_epsilon = Inr False"
  using assms by (simp add: r_dominates_weak_def Let_def default_epsilon_def)

lemma r_is_dominated_Nil: "r_is_dominated solver l [] alpha = Inr False"
  by (simp add: r_is_dominated_def)

lemma r_is_dominated_self:
  assumes "get_cached_quantile l (1 - alpha) = Inr q"
  shows "r_is_dominated solver l [l] alpha = Inr False"
  by (simp add: r_is_dominated_def r_dominates_weak_self[OF assms])

lemma r_prune_single:
  assumes "0 < n"
  shows "\<exists>pruned. r_prune_labels solver [const_label node n c path] alpha = Inr pruned"
  by (simp add: r_prune_labels_def const_quantile[OF assms])

lemma r_rank_single:
  "r_rank_candidates [c] = [c\<lparr> rc_rank := Some 1, rc_is_best := True \<rparr>]"
  by (simp add: r_rank_candidates_def sorted_reverse_def enumerate_simps)

text \<open>The states of the search on one edge \<open>u \<rightarrow> v\<close> whose travel time is 10.\<close>

definition single_edge :: "ReverseLabelSettingSolver \<Rightarrow> int \<Rightarrow> int \<Rightarrow> bool" where
  "single_edge solver u v =
     (u \<noteq> v \<and> rs_reverse_adj_list solver v = Some [u] \<and>
      constant_edge (rs_link_distributions solver) u v \<and>
      1 \<le> rs_L1 solver \<and> rs_time_intervals_per_day solver \<noteq> 0)"

definition departure_candidate :: "nat \<Rightarrow> int \<Rightarrow> int \<Rightarrow> int \<Rightarrow> real \<Rightarrow> r_candidate" where
  "departure_candidate n u v t alpha =
     \<lparr> rc_iteration = 2, rc_path = [u, v],
       rc_distribution = const_dist n (real_of_int (t - 10)),
       rc_latest_departure = real_of_int (t - 10),
       rc_expected_departure = real_of_int (t - 10),
       rc_median_departure = real_of_int (t - 10),
       rc_std_departure = 0, rc_variance = 0,
       rc_label = const_label u n (real_of_int (t - 10)) [v, u],
       rc_alpha = alpha, rc_rank = None, rc_is_best = False \<rparr>"

lemma single_edge_initial:
  assumes "single_edge solver u v"
  shows "r_initial_state solver v t =
         Inr \<lparr> ro_open_labels = [const_label v (nat (rs_L1 solver)) (real_of_int t) [v]],
               ro_node_labels =
                 (\<lambda>node. [])(v := [const_label v (nat (rs_L1 solver)) (real_of_int t) [v]]),
               ro_origin_candidates = [],
               ro_stats = \<lparr> labels_generated = 1, labels_dominated = 0,
                            labels_extended = 0, convolutions = 0 \<rparr>,
               ro_iteration = 0 \<rparr>"
proof -
  from assms have n: "0 < nat (rs_L1 solver)" and l: "rs_L1 solver = int (nat (rs_L1 solver))"
    by (auto simp: single_edge_def)
  have "AlphaDiscreteDistribution_init (replicate (nat (rs_L1 solver)) (real_of_int t))
          (rs_L1 solver) None = const_dist (nat (rs_L1 solver)) (real_of_int t)"
    using alpha_init_const[OF n, of "real_of_int t"] l by simp
  then show ?thesis
    by (simp add: r_initial_state_def const_label_init[OF n] heappush_empty)
qed

lemma single_edge_expand:
  assumes "single_edge solver u v"
    and "ro_node_labels s u = []"
  shows "\<exists>nl. r_expand_predecessor solver alpha
           (const_label v (nat (rs_L1 solver)) (real_of_int t) [v]) s u =
         Inr (s\<lparr> ro_open_labels := heappush rl_lt (ro_open_labels s)
                    (const_label u (nat (rs_L1 solver)) (real_of_int (t - 10)) [v, u]),
                 ro_node_labels := nl,
                 ro_stats := (ro_stats s)
                    \<lparr> convolutions := convolutions (ro_stats s) + 1,
                      labels_generated := labels_generated (ro_stats s) + 1,
                      labels_dominated := labels_dominated (ro_stats s) \<rparr> \<rparr>)"
proof -
  let ?n = "nat (rs_L1 solver)"
  from assms(1) have n: "0 < ?n" and uv: "u \<noteq> v"
    and ce: "constant_edge (rs_link_distributions solver) u v"
    and tz: "rs_time_intervals_per_day solver \<noteq> 0"
    by (auto simp: single_edge_def)
  obtain pruned where pr: "r_prune_labels solver
      [const_label u ?n (real_of_int (t - 10)) [v, u]] alpha = Inr pruned"
    using r_prune_single[OF n] by blast
  have rc: "reverse_convolve (const_dist ?n (real_of_int t)) (rs_link_distributions solver)
              (rs_time_intervals_per_day solver) u v
            = Inr (const_dist ?n (real_of_int (t - 10)))"
    by (rule constant_reverse_convolve[OF ce tz n])
  have "r_expand_predecessor solver alpha (const_label v ?n (real_of_int t) [v]) s u =
         Inr (s\<lparr> ro_open_labels := heappush rl_lt (ro_open_labels s)
                    (const_label u ?n (real_of_int (t - 10)) [v, u]),
                 ro_node_labels := (ro_node_labels s)(u := pruned),
                 ro_stats := (ro_stats s)
                    \<lparr> convolutions := convolutions (ro_stats s) + 1,
                      labels_generated := labels_generated (ro_stats s) + 1,
                      labels_dominated := labels_dominated (ro_stats s) \<rparr> \<rparr>)"
    unfolding r_expand_predecessor_def Let_def
    using uv
    by (simp add: rc const_quantile[OF n] const_label_init[OF n] assms(2)
        r_is_dominated_Nil pr del: of_int_diff)
  then show ?thesis by blast
qed

lemma single_edge_first:
  assumes "single_edge solver u v"
  shows "\<exists>nl. r_iteration solver u alpha K
           \<lparr> ro_open_labels = [const_label v (nat (rs_L1 solver)) (real_of_int t) [v]],
             ro_node_labels =
               (\<lambda>node. [])(v := [const_label v (nat (rs_L1 solver)) (real_of_int t) [v]]),
             ro_origin_candidates = [],
             ro_stats = \<lparr> labels_generated = 1, labels_dominated = 0,
                          labels_extended = 0, convolutions = 0 \<rparr>,
             ro_iteration = 0 \<rparr>
         = Inr (\<lparr> ro_open_labels =
                    [const_label u (nat (rs_L1 solver)) (real_of_int (t - 10)) [v, u]],
                  ro_node_labels = nl,
                  ro_origin_candidates = [],
                  ro_stats = \<lparr> labels_generated = 2, labels_dominated = 0,
                               labels_extended = 1, convolutions = 1 \<rparr>,
                  ro_iteration = 1 \<rparr>, False)"
proof -
  let ?n = "nat (rs_L1 solver)"
  let ?root = "const_label v ?n (real_of_int t) [v]"
  let ?s2 = "\<lparr> ro_open_labels = [],
               ro_node_labels = (\<lambda>node. [])(v := [?root]),
               ro_origin_candidates = [],
               ro_stats = \<lparr> labels_generated = 1, labels_dominated = 0,
                            labels_extended = 1, convolutions = 0 \<rparr>,
               ro_iteration = 1 \<rparr>"
  from assms have n: "0 < ?n" and uv: "u \<noteq> v"
    and adj: "rs_reverse_adj_list solver v = Some [u]"
    by (auto simp: single_edge_def)
  have nd: "r_is_dominated solver ?root [?root] alpha = Inr False"
    by (rule r_is_dominated_self[OF const_label_cached[OF n]])
  from uv have e: "ro_node_labels ?s2 u = []" by simp
  from single_edge_expand[OF assms e, of alpha t]
  obtain nl where ex: "r_expand_predecessor solver alpha ?root ?s2 u =
     Inr (?s2\<lparr> ro_open_labels := heappush rl_lt (ro_open_labels ?s2)
                    (const_label u ?n (real_of_int (t - 10)) [v, u]),
               ro_node_labels := nl,
               ro_stats := (ro_stats ?s2)
                    \<lparr> convolutions := convolutions (ro_stats ?s2) + 1,
                      labels_generated := labels_generated (ro_stats ?s2) + 1,
                      labels_dominated := labels_dominated (ro_stats ?s2) \<rparr> \<rparr>)"
    by blast
  have "r_iteration solver u alpha K
           \<lparr> ro_open_labels = [?root],
             ro_node_labels = (\<lambda>node. [])(v := [?root]),
             ro_origin_candidates = [],
             ro_stats = \<lparr> labels_generated = 1, labels_dominated = 0,
                          labels_extended = 0, convolutions = 0 \<rparr>,
             ro_iteration = 0 \<rparr>
         = Inr (\<lparr> ro_open_labels = [const_label u ?n (real_of_int (t - 10)) [v, u]],
                  ro_node_labels = nl,
                  ro_origin_candidates = [],
                  ro_stats = \<lparr> labels_generated = 2, labels_dominated = 0,
                               labels_extended = 1, convolutions = 1 \<rparr>,
                  ro_iteration = 1 \<rparr>, False)"
    using uv ex
    by (simp add: r_iteration_def Let_def heappop_single nd adj heappush_empty
        del: of_int_diff)
  then show ?thesis by blast
qed

lemma departure_candidate_info:
  assumes "0 < n"
  shows "r_candidate_info alpha 2 (const_label u n (real_of_int (t - 10)) [v, u])
         = Inr (departure_candidate n u v t alpha)"
  by (simp add: r_candidate_info_def const_quantile[OF assms] const_median[OF assms]
      departure_candidate_def del: of_int_diff)

lemma single_edge_second:
  assumes "0 < n" and "1 \<le> K"
  shows "r_iteration solver u alpha K
           \<lparr> ro_open_labels = [const_label u n (real_of_int (t - 10)) [v, u]],
             ro_node_labels = nl,
             ro_origin_candidates = [],
             ro_stats = st,
             ro_iteration = 1 \<rparr>
         = Inr (\<lparr> ro_open_labels = [],
                  ro_node_labels = nl,
                  ro_origin_candidates = [departure_candidate n u v t alpha],
                  ro_stats = st,
                  ro_iteration = 2 \<rparr>, False)"
  using assms(2)
  by (simp add: r_iteration_def Let_def heappop_single departure_candidate_info[OF assms(1)]
      del: of_int_diff)

lemma r_search_step:
  assumes "r_iteration solver origin alpha K s = Inr (s', False)"
    and "ro_open_labels s \<noteq> []" and "labels_generated (ro_stats s) < max_labels"
  shows "r_search solver origin alpha K max_labels s
         = r_search solver origin alpha K max_labels s'"
  by (subst r_search.simps) (simp add: assms)

lemma r_search_empty:
  assumes "ro_open_labels s = []"
  shows "r_search solver origin alpha K max_labels s = Inr s"
  by (subst r_search.simps) (simp add: assms)

lemma single_edge_search:
  assumes "single_edge solver u v" and "1 \<le> K" and "3 \<le> max_labels"
  shows "\<exists>nl. r_search solver u alpha K max_labels
           \<lparr> ro_open_labels = [const_label v (nat (rs_L1 solver)) (real_of_int t) [v]],
             ro_node_labels =
               (\<lambda>node. [])(v := [const_label v (nat (rs_L1 solver)) (real_of_int t) [v]]),
             ro_origin_candidates = [],
             ro_stats = \<lparr> labels_generated = 1, labels_dominated = 0,
                          labels_extended = 0, convolutions = 0 \<rparr>,
             ro_iteration = 0 \<rparr>
         = Inr \<lparr> ro_open_labels = [],
                 ro_node_labels = nl,
                 ro_origin_candidates =
                   [departure_candidate (nat (rs_L1 solver)) u v t alpha],
                 ro_stats = \<lparr> labels_generated = 2, labels_dominated = 0,
                              labels_extended = 1, convolutions = 1 \<rparr>,
                 ro_iteration = 2 \<rparr>"
proof -
  from assms(1) have n: "0 < nat (rs_L1 solver)" by (auto simp: single_edge_def)
  from single_edge_first[OF assms(1), of alpha K t] obtain nl where
    first: "r_iteration solver u alpha K
           \<lparr> ro_open_labels = [const_label v (nat (rs_L1 solver)) (real_of_int t) [v]],
             ro_node_labels =
               (\<lambda>node. [])(v := [const_label v (nat (rs_L1 solver)) (real_of_int t) [v]]),
             ro_origin_candidates = [],
             ro_stats = \<lparr> labels_generated = 1, labels_dominated = 0,
                          labels_extended = 0, convolutions = 0 \<rparr>,
             ro_iteration = 0 \<rparr>
         = Inr (\<lparr> ro_open_labels =
                    [const_label u (nat (rs_L1 solver)) (real_of_int (t - 10)) [v, u]],
                  ro_node_labels = nl,
                  ro_origin_candidates = [],
                  ro_stats = \<lparr> labels_generated = 2, labels_dominated = 0,
                               labels_extended = 1, convolutions = 1 \<rparr>,
                  ro_iteration = 1 \<rparr>, False)"
    by blast
  have "r_search solver u alpha K max_labels
           \<lparr> ro_open_labels = [const_label v (nat (rs_L1 solver)) (real_of_int t) [v]],
             ro_node_labels =
               (\<lambda>node. [])(v := [const_label v (nat (rs_L1 solver)) (real_of_int t) [v]]),
             ro_origin_candidates = [],
             ro_stats = \<lparr> labels_generated = 1, labels_dominated = 0,
                          labels_extended = 0, convolutions = 0 \<rparr>,
             ro_iteration = 0 \<rparr>
         = Inr \<lparr> ro_open_labels = [],
                 ro_node_labels = nl,
                 ro_origin_candidates =
                   [departure_candidate (nat (rs_L1 solver)) u v t alpha],
                 ro_stats = \<lparr> labels_generated = 2, labels_dominated = 0,
                              labels_extended = 1, convolutions = 1 \<rparr>,
                 ro_iteration = 2 \<rparr>"
    using assms(3)
    by (simp add: r_search_step[OF first] r_search_step[OF single_edge_second[OF n assms(2)]]
        r_search_empty del: of_int_diff)
  then show ?thesis by blast
qed

definition single_edge_result :: "nat \<Rightarrow> int \<Rightarrow> int \<Rightarrow> int \<Rightarrow> real \<Rightarrow> int \<Rightarrow> real \<Rightarrow> r_result" where
  "single_edge_result n u v t alpha K total_time =
     [''success'' \<mapsto> PBool True,
      ''path'' \<mapsto> PPath [u, v],
      ''latest_departure_time'' \<mapsto> PFloat (real_of_int (t - 10)),
      ''expected_departure_time'' \<mapsto> PFloat (real_of_int (t - 10)),
      ''median_departure_time'' \<mapsto> PFloat (real_of_int (t - 10)),
      ''std_departure_time'' \<mapsto> PFloat 0,
      ''reserved_time'' \<mapsto> PFloat 10,
      ''distribution'' \<mapsto> PDist (const_dist n (real_of_int (t - 10))),
      ''top_k_candidates'' \<mapsto>
        PCandidates [(departure_candidate n u v t alpha)\<lparr> rc_rank := Some 1, rc_is_best := True \<rparr>],
      ''num_candidates'' \<mapsto> PInt 1,
      ''all_candidates'' \<mapsto>
        PCandidates [(departure_candidate n u v t alpha)\<lparr> rc_rank := Some 1, rc_is_best := True \<rparr>],
      ''total_time'' \<mapsto> PFloat total_time,
      ''iterations'' \<mapsto> PInt 2,
      ''alpha'' \<mapsto> PFloat alpha,
      ''K'' \<mapsto> PInt K,
      ''origin'' \<mapsto> PInt u,
      ''destination'' \<mapsto> PInt v,
      ''target_arrival_time'' \<mapsto> PInt t,
      ''stats'' \<mapsto> PStats \<lparr> labels_generated = 2, labels_dominated = 0,
                              labels_extended = 1, convolutions = 1 \<rparr>]"

lemma single_edge_solve:
  assumes "single_edge solver u v" and "1 \<le> K" and "3 \<le> max_labels"
  shows "r_solve_k_paths solver u v t alpha K max_labels total_time
         = Inr (single_edge_result (nat (rs_L1 solver)) u v t alpha K total_time)"
proof -
  from single_edge_search[OF assms, of alpha t] obtain nl where
    s: "r_search solver u alpha K max_labels
           \<lparr> ro_open_labels = [const_label v (nat (rs_L1 solver)) (real_of_int t) [v]],
             ro_node_labels =
               (\<lambda>node. [])(v := [const_label v (nat (rs_L1 solver)) (real_of_int t) [v]]),
             ro_origin_candidates = [],
             ro_stats = \<lparr> labels_generated = 1, labels_dominated = 0,
                          labels_extended = 0, convolutions = 0 \<rparr>,
             ro_iteration = 0 \<rparr>
         = Inr \<lparr> ro_open_labels = [],
                 ro_node_labels = nl,
                 ro_origin_candidates =
                   [departure_candidate (nat (rs_L1 solver)) u v t alpha],
                 ro_stats = \<lparr> labels_generated = 2, labels_dominated = 0,
                              labels_extended = 1, convolutions = 1 \<rparr>,
                 ro_iteration = 2 \<rparr>"
    by blast
  have tk: "\<And>x :: r_candidate. py_take K [x] = [x]"
    using assms(2) by (simp add: py_take_def)
  have rt: "real_of_int t - real_of_int (t - 10) = 10" by simp
  show ?thesis
    by (simp add: r_solve_k_paths_def single_edge_initial[OF assms(1)] s Let_def
        r_rank_single tk rt single_edge_result_def departure_candidate_def del: of_int_diff)
qed

definition edge_reverse_solver :: ReverseLabelSettingSolver where
  "edge_reverse_solver = \<lparr> rs_L1 = 2, rs_L2 = 1, rs_max_labels_per_node = 20,
     rs_time_intervals_per_day = 1, rs_adj_list = [1 \<mapsto> [2]],
     rs_reverse_adj_list = [2 \<mapsto> [1]],
     rs_link_distributions = [((1, 2, 0), point_mass_link)] \<rparr>"

lemma edge_reverse_solver_single_edge: "single_edge edge_reverse_solver 1 2"
  by (simp add: single_edge_def edge_reverse_solver_def constant_edge_def point_mass_link_def)

lemma edge_reverse_result:
  "r_solve_k_paths edge_reverse_solver 1 2 100 (1 / 2) 1 100000 0
   = Inr (single_edge_result 2 1 2 100 (1 / 2) 1 0)"
  using single_edge_solve[OF edge_reverse_solver_single_edge, of 1 100000 100 "1 / 2" 0]
  by (simp add: edge_reverse_solver_def)

text \<open>
  C9. On a network whose only edge into \<open>v\<close> is \<open>u \<rightarrow> v\<close>, with the point mass at travel
  time 10 in every slot the table has for the edge, the reverse \<^verbatim>\<open>solve_k_paths\<close> with
  target arrival time 100 and \<open>\<alpha> = 0.5\<close> succeeds with path \<open>[u, v]\<close>, latest departure
  time 90 and reserved time 10. This holds for every \<open>L1 \<ge> 1\<close>, every number of slots
  per day other than zero, every \<open>K \<ge> 1\<close> and every label budget of at least 3.
\<close>

theorem reverse_single_edge_scenario:
  assumes "single_edge solver u v" and "1 \<le> K" and "3 \<le> max_labels"
  shows "\<exists>result.
           r_solve_k_paths solver u v 100 (1 / 2) K max_labels total_time = Inr result \<and>
           result ''success'' = Some (PBool True) \<and>
           result ''path'' = Some (PPath [u, v]) \<and>
           result ''latest_departure_time'' = Some (PFloat 90) \<and>
           result ''reserved_time'' = Some (PFloat 10)"
  using single_edge_solve[OF assms, of 100 "1 / 2" total_time]
  by (simp add: single_edge_result_def)

theorem reverse_single_edge_scenario_witness:
  "\<exists>result.
     r_solve_k_paths edge_reverse_solver 1 2 100 (1 / 2) 1 100000 0 = Inr result \<and>
     result ''success'' = Some (PBool True) \<and>
     result ''path'' = Some (PPath [1, 2]) \<and>
     result ''latest_departure_time'' = Some (PFloat 90) \<and>
     result ''reserved_time'' = Some (PFloat 10)"
  using reverse_single_edge_scenario[of edge_reverse_solver 1 2 1 100000 0]
  by (simp add: single_edge_def edge_reverse_solver_def constant_edge_def point_mass_link_def)

theorem reverse_candidates_paths_witness:
  "rc_path ((departure_candidate 2 1 2 100 (1 / 2))\<lparr> rc_rank := Some 1, rc_is_best := True \<rparr>)
     = rev (rl_path (rc_label ((departure_candidate 2 1 2 100 (1 / 2))
                                 \<lparr> rc_rank := Some 1, rc_is_best := True \<rparr>))) \<and>
   rl_path (rc_label ((departure_candidate 2 1 2 100 (1 / 2))
                        \<lparr> rc_rank := Some 1, rc_is_best := True \<rparr>)) = [2, 1] \<and>
   rc_path ((departure_candidate 2 1 2 100 (1 / 2))\<lparr> rc_rank := Some 1, rc_is_best := True \<rparr>)
     = [1, 2]"
proof -
  have c: "single_edge_result 2 1 2 100 (1 / 2) 1 0 ''all_candidates''
           = Some (PCandidates [(departure_candidate 2 1 2 100 (1 / 2))
                                  \<lparr> rc_rank := Some 1, rc_is_best := True \<rparr>])"
    by (simp add: single_edge_result_def)
  from reverse_candidates_paths[OF edge_reverse_result disjI1[OF c],
      of "(departure_candidate 2 1 2 100 (1 / 2))\<lparr> rc_rank := Some 1, rc_is_best := True \<rparr>"]
  show ?thesis by (simp add: departure_candidate_def)
qed

section \<open>The result of a search without candidates\<close>

lemma f_iteration_stop:
  assumes "f_iteration solver destination departure_time alpha K s = Inr (s', True)"
  shows "fo_destination_candidates s' \<noteq> []"
proof -
  obtain cur rest where hp: "heappop fl_lt (fo_open_labels s) = (cur, rest)"
    by (cases "heappop fl_lt (fo_open_labels s)")
  from assms show ?thesis
    by (auto simp: f_iteration_def hp Let_def
        split: if_splits sum.splits bool.splits option.splits)
qed

lemma f_search_end:
  assumes "f_search solver destination departure_time alpha K max_labels s = Inr s'"
    and "fo_destination_candidates s' = []"
  shows "fo_open_labels s' = [] \<or> max_labels \<le> labels_generated (fo_stats s')"
  using assms
proof (induction solver destination departure_time alpha K max_labels s rule: f_search.induct)
  case (1 solver destination departure_time alpha K max_labels s)
  show ?case
  proof (cases "fo_open_labels s \<noteq> [] \<and> labels_generated (fo_stats s) < max_labels")
    case True
    with "1.prems"(1) obtain s1 stop where
      it: "f_iteration solver destination departure_time alpha K s = Inr (s1, stop)"
      and r: "if stop then s' = s1
              else f_search solver destination departure_time alpha K max_labels s1 = Inr s'"
      by (subst (asm) f_search.simps) (auto split: sum.splits if_splits)
    show ?thesis
    proof (cases stop)
      case True
      with it r f_iteration_stop[of solver destination departure_time alpha K s s']
        "1.prems"(2)
      show ?thesis by simp
    next
      case False
      with r have "f_search solver destination departure_time alpha K max_labels s1 = Inr s'"
        by simp
      from "1.IH"[OF True it refl False this "1.prems"(2)] show ?thesis .
    qed
  next
    case False
    with "1.prems"(1) have "s' = s" by (subst (asm) f_search.simps) auto
    with False show ?thesis by auto
  qed
qed

lemma r_iteration_stop:
  assumes "r_iteration solver origin alpha K s = Inr (s', True)"
  shows "ro_origin_candidates s' \<noteq> []"
proof -
  obtain cur rest where hp: "heappop rl_lt (ro_open_labels s) = (cur, rest)"
    by (cases "heappop rl_lt (ro_open_labels s)")
  from assms show ?thesis
    by (auto simp: r_iteration_def hp Let_def
        split: if_splits sum.splits bool.splits option.splits)
qed

lemma r_search_end:
  assumes "r_search solver origin alpha K max_labels s = Inr s'"
    and "ro_origin_candidates s' = []"
  shows "ro_open_labels s' = [] \<or> max_labels \<le> labels_generated (ro_stats s')"
  using assms
proof (induction solver origin alpha K max_labels s rule: r_search.induct)
  case (1 solver origin alpha K max_labels s)
  show ?case
  proof (cases "ro_open_labels s \<noteq> [] \<and> labels_generated (ro_stats s) < max_labels")
    case True
    with "1.prems"(1) obtain s1 stop where
      it: "r_iteration solver origin alpha K s = Inr (s1, stop)"
      and r: "if stop then s' = s1 else r_search solver origin alpha K max_labels s1 = Inr s'"
      by (subst (asm) r_search.simps) (auto split: sum.splits if_splits)
    show ?thesis
    proof (cases stop)
      case True
      with it r r_iteration_stop[of solver origin alpha K s s'] "1.prems"(2)
      show ?thesis by simp
    next
      case False
      with r have "r_search solver origin alpha K max_labels s1 = Inr s'" by simp
      from "1.IH"[OF True it refl False this "1.prems"(2)] show ?thesis .
    qed
  next
    case False
    with "1.prems"(1) have "s' = s" by (subst (asm) r_search.simps) auto
    with False show ?thesis by auto
  qed
qed

text \<open>
  C8. In both solvers, when the loop of \<^verbatim>\<open>solve_k_paths\<close> has ended with no candidate
  recorded, the open queue is empty or the label budget \<^verbatim>\<open>max_labels\<close> is used up, and
  the method returns (it does not raise) the dictionary with \<^verbatim>\<open>success = False\<close>, the
  time, the number of iterations, the search statistics and \<^verbatim>\<open>num_candidates = 0\<close>.
\<close>

theorem search_exhausted_failure:
  "(f_initial_state fsolver forigin departure_time = Inr fs0 \<longrightarrow>
    f_search fsolver fdestination departure_time falpha fK fmax_labels fs0 = Inr fs \<longrightarrow>
    fo_destination_candidates fs = [] \<longrightarrow>
      (fo_open_labels fs = [] \<or> fmax_labels \<le> labels_generated (fo_stats fs)) \<and>
      f_solve_k_paths fsolver forigin fdestination departure_time falpha fK fmax_labels
          ftotal_time
        = Inr [''success'' \<mapsto> PBool False,
               ''total_time'' \<mapsto> PFloat ftotal_time,
               ''iterations'' \<mapsto> PInt (fo_iteration fs),
               ''stats'' \<mapsto> PStats (fo_stats fs),
               ''num_candidates'' \<mapsto> PInt 0]) \<and>
   (r_initial_state rsolver rdestination target_arrival_time = Inr rs0 \<longrightarrow>
    r_search rsolver rorigin ralpha rK rmax_labels rs0 = Inr rs \<longrightarrow>
    ro_origin_candidates rs = [] \<longrightarrow>
      (ro_open_labels rs = [] \<or> rmax_labels \<le> labels_generated (ro_stats rs)) \<and>
      r_solve_k_paths rsolver rorigin rdestination target_arrival_time ralpha rK rmax_labels
          rtotal_time
        = Inr [''success'' \<mapsto> PBool False,
               ''total_time'' \<mapsto> PFloat rtotal_time,
               ''iterations'' \<mapsto> PInt (ro_iteration rs),
               ''stats'' \<mapsto> PStats (ro_stats rs),
               ''num_candidates'' \<mapsto> PInt 0])"
proof (intro conjI impI)
  assume "f_search fsolver fdestination departure_time falpha fK fmax_labels fs0 = Inr fs"
    and "fo_destination_candidates fs = []"
  then show "fo_open_labels fs = [] \<or> fmax_labels \<le> labels_generated (fo_stats fs)"
    by (rule f_search_end)
next
  assume "f_initial_state fsolver forigin departure_time = Inr fs0"
    and "f_search fsolver fdestination departure_time falpha fK fmax_labels fs0 = Inr fs"
    and "fo_destination_candidates fs = []"
  then show "f_solve_k_paths fsolver forigin fdestination departure_time falpha fK fmax_labels
          ftotal_time
        = Inr [''success'' \<mapsto> PBool False,
               ''total_time'' \<mapsto> PFloat ftotal_time,
               ''iterations'' \<mapsto> PInt (fo_iteration fs),
               ''stats'' \<mapsto> PStats (fo_stats fs),
               ''num_candidates'' \<mapsto> PInt 0]"
    by (simp add: f_solve_k_paths_def)
next
  assume "r_search rsolver rorigin ralpha rK rmax_labels rs0 = Inr rs"
    and "ro_origin_candidates rs = []"
  then show "ro_open_labels rs = [] \<or> rmax_labels \<le> labels_generated (ro_stats rs)"
    by (rule r_search_end)
next
  assume "r_initial_state rsolver rdestination target_arrival_time = Inr rs0"
    and "r_search rsolver rorigin ralpha rK rmax_labels rs0 = Inr rs"
    and "ro_origin_candidates rs = []"
  then show "r_solve_k_paths rsolver rorigin rdestination target_arrival_time ralpha rK
          rmax_labels rtotal_time
        = Inr [''success'' \<mapsto> PBool False,
               ''total_time'' \<mapsto> PFloat rtotal_time,
               ''iterations'' \<mapsto> PInt (ro_iteration rs),
               ''stats'' \<mapsto> PStats (ro_stats rs),
               ''num_candidates'' \<mapsto> PInt 0]"
    by (simp add: r_solve_k_paths_def)
qed

subsection \<open>A destination that cannot be reached\<close>

text \<open>
  On the network with the one edge \<open>1 \<rightarrow> 2\<close>, the forward search from 2 to 1 and the
  reverse search from origin 2 to destination 1 expand the root label, find no
  neighbour, and end with an empty queue.
\<close>

definition forward_dead_end :: f_search_state where
  "forward_dead_end =
     \<lparr> fo_open_labels = [],
       fo_node_labels = (\<lambda>node. [])(2 := [root_label 2]),
       fo_destination_candidates = [],
       fo_stats = \<lparr> labels_generated = 1, labels_dominated = 0,
                    labels_extended = 1, convolutions = 0 \<rparr>,
       fo_iteration = 1 \<rparr>"

lemma forward_dead_end_search:
  "f_search edge_solver 1 0 (1 / 2) 1 100000
     \<lparr> fo_open_labels = [root_label 2],
       fo_node_labels = (\<lambda>node. [])(2 := [root_label 2]),
       fo_destination_candidates = [],
       fo_stats = \<lparr> labels_generated = 1, labels_dominated = 0,
                    labels_extended = 0, convolutions = 0 \<rparr>,
       fo_iteration = 0 \<rparr>
   = Inr forward_dead_end"
proof -
  have nd: "f_is_dominated edge_solver (root_label 2) [root_label 2] (1 / 2) = Inr False"
    by (simp add: f_is_dominated_def edge_solver_def f_dominates_weak_def root_label_sel
        root_quantile default_epsilon_def)
  have adj: "fs_adj_list edge_solver 2 = None" by (simp add: edge_solver_def)
  have it: "f_iteration edge_solver 1 0 (1 / 2) 1
     \<lparr> fo_open_labels = [root_label 2],
       fo_node_labels = (\<lambda>node. [])(2 := [root_label 2]),
       fo_destination_candidates = [],
       fo_stats = \<lparr> labels_generated = 1, labels_dominated = 0,
                    labels_extended = 0, convolutions = 0 \<rparr>,
       fo_iteration = 0 \<rparr> = Inr (forward_dead_end, False)"
    by (simp add: f_iteration_def heappop_single root_label_sel Let_def nd adj
        forward_dead_end_def)
  show ?thesis
    apply (subst f_search.simps)
    apply (simp add: it)
    apply (subst f_search.simps)
    apply (simp add: forward_dead_end_def)
    done
qed

lemma r_initial_state_const:
  assumes "1 \<le> rs_L1 solver"
  shows "r_initial_state solver v t =
         Inr \<lparr> ro_open_labels = [const_label v (nat (rs_L1 solver)) (real_of_int t) [v]],
               ro_node_labels =
                 (\<lambda>node. [])(v := [const_label v (nat (rs_L1 solver)) (real_of_int t) [v]]),
               ro_origin_candidates = [],
               ro_stats = \<lparr> labels_generated = 1, labels_dominated = 0,
                            labels_extended = 0, convolutions = 0 \<rparr>,
               ro_iteration = 0 \<rparr>"
proof -
  from assms have n: "0 < nat (rs_L1 solver)" and l: "rs_L1 solver = int (nat (rs_L1 solver))"
    by auto
  have "AlphaDiscreteDistribution_init (replicate (nat (rs_L1 solver)) (real_of_int t))
          (rs_L1 solver) None = const_dist (nat (rs_L1 solver)) (real_of_int t)"
    using alpha_init_const[OF n, of "real_of_int t"] l by simp
  then show ?thesis
    by (simp add: r_initial_state_def const_label_init[OF n] heappush_empty)
qed

definition reverse_dead_end :: r_search_state where
  "reverse_dead_end =
     \<lparr> ro_open_labels = [],
       ro_node_labels = (\<lambda>node. [])(1 := [const_label 1 2 100 [1]]),
       ro_origin_candidates = [],
       ro_stats = \<lparr> labels_generated = 1, labels_dominated = 0,
                    labels_extended = 1, convolutions = 0 \<rparr>,
       ro_iteration = 1 \<rparr>"

lemma reverse_dead_end_initial:
  "r_initial_state edge_reverse_solver 1 100 =
     Inr \<lparr> ro_open_labels = [const_label 1 2 100 [1]],
           ro_node_labels = (\<lambda>node. [])(1 := [const_label 1 2 100 [1]]),
           ro_origin_candidates = [],
           ro_stats = \<lparr> labels_generated = 1, labels_dominated = 0,
                        labels_extended = 0, convolutions = 0 \<rparr>,
           ro_iteration = 0 \<rparr>"
  using r_initial_state_const[of edge_reverse_solver 1 100]
  by (simp add: edge_reverse_solver_def)

lemma reverse_dead_end_search:
  "r_search edge_reverse_solver 2 (1 / 2) 1 100000
     \<lparr> ro_open_labels = [const_label 1 2 100 [1]],
       ro_node_labels = (\<lambda>node. [])(1 := [const_label 1 2 100 [1]]),
       ro_origin_candidates = [],
       ro_stats = \<lparr> labels_generated = 1, labels_dominated = 0,
                    labels_extended = 0, convolutions = 0 \<rparr>,
       ro_iteration = 0 \<rparr>
   = Inr reverse_dead_end"
proof -
  have nd: "r_is_dominated edge_reverse_solver (const_label 1 2 100 [1])
              [const_label 1 2 100 [1]] (1 / 2) = Inr False"
    by (rule r_is_dominated_self[OF const_label_cached]) simp
  have adj: "rs_reverse_adj_list edge_reverse_solver 1 = None"
    by (simp add: edge_reverse_solver_def)
  have it: "r_iteration edge_reverse_solver 2 (1 / 2) 1
     \<lparr> ro_open_labels = [const_label 1 2 100 [1]],
       ro_node_labels = (\<lambda>node. [])(1 := [const_label 1 2 100 [1]]),
       ro_origin_candidates = [],
       ro_stats = \<lparr> labels_generated = 1, labels_dominated = 0,
                    labels_extended = 0, convolutions = 0 \<rparr>,
       ro_iteration = 0 \<rparr> = Inr (reverse_dead_end, False)"
    by (simp add: r_iteration_def heappop_single Let_def nd adj reverse_dead_end_def)
  show ?thesis
    by (simp add: r_search_step[OF it] r_search_empty reverse_dead_end_def)
qed

theorem search_exhausted_failure_witness:
  "f_solve_k_paths edge_solver 2 1 0 (1 / 2) 1 100000 0
     = Inr [''success'' \<mapsto> PBool False,
            ''total_time'' \<mapsto> PFloat 0,
            ''iterations'' \<mapsto> PInt 1,
            ''stats'' \<mapsto> PStats \<lparr> labels_generated = 1, labels_dominated = 0,
                                    labels_extended = 1, convolutions = 0 \<rparr>,
            ''num_candidates'' \<mapsto> PInt 0] \<and>
   r_solve_k_paths edge_reverse_solver 2 1 100 (1 / 2) 1 100000 0
     = Inr [''success'' \<mapsto> PBool False,
            ''total_time'' \<mapsto> PFloat 0,
            ''iterations'' \<mapsto> PInt 1,
            ''stats'' \<mapsto> PStats \<lparr> labels_generated = 1, labels_dominated = 0,
                                    labels_extended = 1, convolutions = 0 \<rparr>,
            ''num_candidates'' \<mapsto> PInt 0]"
  using search_exhausted_failure[of edge_solver 2 0 _ 1 "1 / 2" 1 100000 forward_dead_end 0
      edge_reverse_solver 1 100 _ 2 "1 / 2" 1 100000 reverse_dead_end 0]
    edge_initial[of 2] forward_dead_end_search reverse_dead_end_initial reverse_dead_end_search
  by (simp add: forward_dead_end_def reverse_dead_end_def)

end
